theory Spec2Isabelle
  imports Complex_Main "HOL-Library.Sublist" "HOL-Library.Product_Lexorder"
begin

section \<open>GitHub user activity CLI: the filter, timestamp and formatting pipeline\<close>

text \<open>
  A shallow embedding of \<^verbatim>\<open>github_activity.py\<close>. Python's unbounded integers
  are \<^typ>\<open>int\<close>; an exception that leaves a function is a value of \<open>error\<close>; the
  clock and the network are inputs of the functions that read them.

  A Python string is a \<^typ>\<open>string\<close> over an alphabet of 256 characters of Unicode:
  the characters with a code below 128 are the ASCII characters, and the character with
  code \<open>128 + k\<close> stands for the ideograph U+4E00 \<open>+ k\<close>, which has no case and is
  neither a digit nor a blank. On this alphabet the case mappings, the digits and the
  blanks of Python are those of ASCII.
\<close>

subsection \<open>Strings\<close>

definition is_digit :: "char \<Rightarrow> bool" where
  "is_digit c = (48 \<le> (of_char c :: int) \<and> (of_char c :: int) \<le> 57)"

definition digit_val :: "char \<Rightarrow> int" where
  "digit_val c = of_char c - 48"

text \<open>\<^verbatim>\<open>int(s)\<close> on a string of decimal digits.\<close>

definition num_of :: "string \<Rightarrow> int" where
  "num_of s = foldl (\<lambda>a c. 10 * a + digit_val c) 0 s"

text \<open>\<^verbatim>\<open>str.lower()\<close>: the capitals \<open>A\<close> to \<open>Z\<close> move up by 32.\<close>

definition lower_char :: "char \<Rightarrow> char" where
  "lower_char c =
     (let n = (of_char c :: int) in if 65 \<le> n \<and> n \<le> 90 then char_of (n + 32) else c)"

definition lower :: "string \<Rightarrow> string" where
  "lower s = map lower_char s"

text \<open>\<^verbatim>\<open>a in b\<close> on strings: \<open>a\<close> occurs in \<open>b\<close> as a contiguous run.\<close>

fun str_in :: "string \<Rightarrow> string \<Rightarrow> bool" where
  "str_in a [] = (a = [])"
| "str_in a (c # cs) = (prefix a (c # cs) \<or> str_in a cs)"

subsection \<open>Timestamps\<close>

text \<open>A naive \<^verbatim>\<open>datetime\<close>: its seven fields.\<close>

record datetime =
  year :: int
  month :: int
  day :: int
  hour :: int
  minute :: int
  second :: int
  microsecond :: int

definition is_leap :: "int \<Rightarrow> bool" where
  "is_leap y = (y mod 4 = 0 \<and> (y mod 100 \<noteq> 0 \<or> y mod 400 = 0))"

definition days_in_month :: "int \<Rightarrow> int \<Rightarrow> int" where
  "days_in_month y m =
     (if m = 2 then (if is_leap y then 29 else 28)
      else if m = 4 \<or> m = 6 \<or> m = 9 \<or> m = 11 then 30 else 31)"

text \<open>
  The constructor \<^verbatim>\<open>datetime(y, m, d, H, M, S, us)\<close>: ValueError (here
  \<open>None\<close>) when a field is out of range.
\<close>

definition mk_datetime ::
  "int \<Rightarrow> int \<Rightarrow> int \<Rightarrow> int \<Rightarrow> int \<Rightarrow> int \<Rightarrow> int \<Rightarrow> datetime option" where
  "mk_datetime y m d H M S us =
     (if 1 \<le> y \<and> y \<le> 9999 \<and> 1 \<le> m \<and> m \<le> 12 \<and> 1 \<le> d \<and> d \<le> days_in_month y m
         \<and> 0 \<le> H \<and> H \<le> 23 \<and> 0 \<le> M \<and> M \<le> 59 \<and> 0 \<le> S \<and> S \<le> 59
         \<and> 0 \<le> us \<and> us \<le> 999999
      then Some \<lparr>year = y, month = m, day = d, hour = H, minute = M, second = S,
                 microsecond = us\<rparr>
      else None)"

text \<open>\<^verbatim>\<open>datetime.min\<close>\<close>

definition datetime_min :: datetime where
  "datetime_min = \<lparr>year = 1, month = 1, day = 1, hour = 0, minute = 0, second = 0,
                    microsecond = 0\<rparr>"

text \<open>Naive datetimes compare field by field, the year first.\<close>

definition dt_key :: "datetime \<Rightarrow> int \<times> int \<times> int \<times> int \<times> int \<times> int \<times> int" where
  "dt_key d = (year d, month d, day d, hour d, minute d, second d, microsecond d)"

definition dt_ge :: "datetime \<Rightarrow> datetime \<Rightarrow> bool" where
  "dt_ge a b = (dt_key b \<le> dt_key a)"


subsection \<open>\<^verbatim>\<open>datetime.strptime\<close> for the two formats of the program\<close>

text \<open>
  \<^verbatim>\<open>strptime\<close> compiles a format into a regular expression, matched at the start
  of the string case-insensitively, and raises ValueError when the match fails, when
  text remains after it, or when the fields are no date. The directives are
  \<^verbatim>\<open>%Y = \d\d\d\d\<close>, \<^verbatim>\<open>%m = 1[0-2]|0[1-9]|[1-9]\<close>,
  \<^verbatim>\<open>%d = 3[0-1]|[1-2]\d|0[1-9]|[1-9]| [1-9]\<close>, \<^verbatim>\<open>%H = 2[0-3]|[0-1]\d|\d\<close>,
  \<^verbatim>\<open>%M = [0-5]\d|\d\<close> and \<^verbatim>\<open>%S = 6[0-1]|[0-5]\d|\d\<close>. No directive matches
  a separator of the two formats, so a field is the text before the next separator.
\<close>

definition digits12 :: "string \<Rightarrow> bool" where
  "digits12 f = ((length f = 1 \<or> length f = 2) \<and> list_all is_digit f)"

definition match_Y :: "string \<Rightarrow> bool" where
  "match_Y f = (length f = 4 \<and> list_all is_digit f)"

definition match_m :: "string \<Rightarrow> bool" where
  "match_m f = (digits12 f \<and> 1 \<le> num_of f \<and> num_of f \<le> 12)"

definition match_d :: "string \<Rightarrow> bool" where
  "match_d f =
     ((digits12 f \<and> 1 \<le> num_of f \<and> num_of f \<le> 31)
      \<or> (length f = 2 \<and> hd f = CHR '' '' \<and> is_digit (f ! 1) \<and> f ! 1 \<noteq> CHR ''0''))"

definition match_H :: "string \<Rightarrow> bool" where
  "match_H f = (digits12 f \<and> num_of f \<le> 23)"

definition match_M :: "string \<Rightarrow> bool" where
  "match_M f = (digits12 f \<and> num_of f \<le> 59)"

definition match_S :: "string \<Rightarrow> bool" where
  "match_S f = (digits12 f \<and> num_of f \<le> 61)"

text \<open>\<^verbatim>\<open>int\<close> of a matched field; it skips the blank that \<^verbatim>\<open>%d\<close> allows.\<close>

definition field_val :: "string \<Rightarrow> int" where
  "field_val f = num_of (filter is_digit f)"

text \<open>The text before the first separator, and the text after that separator.\<close>

definition cut :: "(char \<Rightarrow> bool) \<Rightarrow> string \<Rightarrow> (string \<times> string) option" where
  "cut sep s =
     (case dropWhile (\<lambda>c. \<not> sep c) s of
        [] \<Rightarrow> None
      | c # rest \<Rightarrow> Some (takeWhile (\<lambda>c. \<not> sep c) s, rest))"

text \<open>\<^verbatim>\<open>datetime.strptime(s, '%Y-%m-%d')\<close>, \<open>None\<close> for ValueError.\<close>

definition strptime_date :: "string \<Rightarrow> datetime option" where
  "strptime_date s =
     (case cut (\<lambda>c. c = CHR ''-'') s of
        None \<Rightarrow> None
      | Some (Y, r1) \<Rightarrow>
     (case cut (\<lambda>c. c = CHR ''-'') r1 of
        None \<Rightarrow> None
      | Some (m, d) \<Rightarrow>
          if match_Y Y \<and> match_m m \<and> match_d d
          then mk_datetime (field_val Y) (field_val m) (field_val d) 0 0 0 0
          else None))"

text \<open>\<^verbatim>\<open>datetime.strptime(s, '%Y-%m-%dT%H:%M:%SZ')\<close>, \<open>None\<close> for ValueError.\<close>

definition strptime_iso :: "string \<Rightarrow> datetime option" where
  "strptime_iso s =
     (case cut (\<lambda>c. c = CHR ''-'') s of
        None \<Rightarrow> None
      | Some (Y, r1) \<Rightarrow>
     (case cut (\<lambda>c. c = CHR ''-'') r1 of
        None \<Rightarrow> None
      | Some (m, r2) \<Rightarrow>
     (case cut (\<lambda>c. c = CHR ''T'' \<or> c = CHR ''t'') r2 of
        None \<Rightarrow> None
      | Some (d, r3) \<Rightarrow>
     (case cut (\<lambda>c. c = CHR '':'') r3 of
        None \<Rightarrow> None
      | Some (H, r4) \<Rightarrow>
     (case cut (\<lambda>c. c = CHR '':'') r4 of
        None \<Rightarrow> None
      | Some (M, r5) \<Rightarrow>
     (case cut (\<lambda>c. c = CHR ''Z'' \<or> c = CHR ''z'') r5 of
        None \<Rightarrow> None
      | Some (S, r6) \<Rightarrow>
          if r6 = [] \<and> match_Y Y \<and> match_m m \<and> match_d d
             \<and> match_H H \<and> match_M M \<and> match_S S
          then mk_datetime (field_val Y) (field_val m) (field_val d)
                 (field_val H) (field_val M) (field_val S) 0
          else None))))))"

subsection \<open>Exceptions\<close>

text \<open>
  The exceptions that can leave a function of the program on the records and
  arguments of the model. An exception that nothing catches ends the process with
  exit status 1; \<^verbatim>\<open>sys.exit(1)\<close> is \<open>SystemExit 1\<close>.
\<close>

datatype error = AttributeError | TypeError | OverflowError | SystemExit int

subsection \<open>Event records and filters\<close>

text \<open>
  An event is a decoded JSON object. The record keeps the keys the program reads;
  \<open>None\<close> is an absent key, and a key that is present carries the type the GitHub
  events API gives it (a string, an object, a list). A commit is kept as its hash.
  The value of \<^verbatim>\<open>created_at\<close> is kept as JSON gives it: a string, or a value that
  is no string (null, a number, a boolean, an array, an object).
\<close>

datatype json_text = Text string | NotText

record event_repo =
  name :: "string option"

record event_payload =
  commits :: "string list option"
  ref_type :: "string option"
  action :: "string option"

record event =
  ev_type :: "string option"
  ev_repo :: "event_repo option"
  ev_payload :: "event_payload option"
  ev_created_at :: "json_text option"

text \<open>The \<^verbatim>\<open>filters\<close> dictionary: \<open>None\<close> is an absent key.\<close>

record filters =
  event_type :: "string option"
  repo :: "string option"
  date_from :: "datetime option"
  limit :: "int option"

definition no_filters :: filters where
  "no_filters = \<lparr>event_type = None, repo = None, date_from = None, limit = None\<rparr>"

subsection \<open>\<^verbatim>\<open>parse_event_date\<close>\<close>

text \<open>
  The \<^verbatim>\<open>try\<close> block on a string: the parsed timestamp, or \<^verbatim>\<open>datetime.min\<close> when
  \<^verbatim>\<open>strptime\<close> raises ValueError.
\<close>

definition strptime_or_min :: "string \<Rightarrow> datetime" where
  "strptime_or_min date_str =
     (case strptime_iso date_str of Some d \<Rightarrow> d | None \<Rightarrow> datetime_min)"

text \<open>
  \<^verbatim>\<open>date_str\<close> is \<^verbatim>\<open>event.get('created_at', '')\<close>. When it is no string,
  \<^verbatim>\<open>strptime\<close> raises TypeError, which the handler for ValueError does not catch.
\<close>

definition parse_event_date :: "event \<Rightarrow> error + datetime" where
  "parse_event_date e =
     (case ev_created_at e of
        None \<Rightarrow> Inr (strptime_or_min [])
      | Some (Text date_str) \<Rightarrow> Inr (strptime_or_min date_str)
      | Some NotText \<Rightarrow> Inl TypeError)"

subsection \<open>\<^verbatim>\<open>filter_events\<close>\<close>

text \<open>The slice \<^verbatim>\<open>xs[:n]\<close>: a negative \<open>n\<close> counts from the end.\<close>

definition slice_to :: "'a list \<Rightarrow> int \<Rightarrow> 'a list" where
  "slice_to xs n =
     (if 0 \<le> n then take (nat n) xs else take (length xs - nat (- n)) xs)"

text \<open>\<^verbatim>\<open>e.get('repo', {}).get('name', '')\<close>\<close>

definition repo_name_or :: "string \<Rightarrow> event \<Rightarrow> string" where
  "repo_name_or dflt e =
     (case ev_repo e of
        None \<Rightarrow> dflt
      | Some r \<Rightarrow> (case name r of None \<Rightarrow> dflt | Some n \<Rightarrow> n))"

text \<open>
  Each \<^verbatim>\<open>if filters.get(k):\<close> tests the truth value of the entry: an absent key,
  an empty string and the number 0 are false, a datetime is true.
\<close>

text \<open>
  A list comprehension \<^verbatim>\<open>[e for e in xs if p(e)]\<close> whose condition can raise: the
  first exception leaves the comprehension.
\<close>

fun filter_e :: "('a \<Rightarrow> error + bool) \<Rightarrow> 'a list \<Rightarrow> error + 'a list" where
  "filter_e p [] = Inr []"
| "filter_e p (x # xs) =
     (case p x of
        Inl exc \<Rightarrow> Inl exc
      | Inr b \<Rightarrow>
          (case filter_e p xs of
             Inl exc \<Rightarrow> Inl exc
           | Inr ys \<Rightarrow> Inr (if b then x # ys else ys)))"

text \<open>\<^verbatim>\<open>parse_event_date(e) >= date_from\<close>\<close>

definition on_or_after :: "datetime \<Rightarrow> event \<Rightarrow> error + bool" where
  "on_or_after d e =
     (case parse_event_date e of Inl exc \<Rightarrow> Inl exc | Inr t \<Rightarrow> Inr (dt_ge t d))"

definition by_type :: "filters \<Rightarrow> event list \<Rightarrow> event list" where
  "by_type f es =
     (case event_type f of
        None \<Rightarrow> es
      | Some t \<Rightarrow> if t = [] then es else filter (\<lambda>e. ev_type e = Some t) es)"

definition by_repo :: "filters \<Rightarrow> event list \<Rightarrow> event list" where
  "by_repo f es =
     (case repo f of
        None \<Rightarrow> es
      | Some r \<Rightarrow>
          if r = [] then es
          else filter (\<lambda>e. str_in (lower r) (lower (repo_name_or [] e))) es)"

definition by_date :: "filters \<Rightarrow> event list \<Rightarrow> error + event list" where
  "by_date f es =
     (case date_from f of
        None \<Rightarrow> Inr es
      | Some d \<Rightarrow> filter_e (on_or_after d) es)"

definition by_limit :: "filters \<Rightarrow> event list \<Rightarrow> event list" where
  "by_limit f es =
     (case limit f of
        None \<Rightarrow> es
      | Some n \<Rightarrow> if n = 0 then es else slice_to es n)"

definition filter_events :: "event list \<Rightarrow> filters \<Rightarrow> error + event list" where
  "filter_events events f =
     (case by_date f (by_repo f (by_type f events)) of
        Inl exc \<Rightarrow> Inl exc
      | Inr filtered \<Rightarrow> Inr (by_limit f filtered))"

subsection \<open>Numbers as text, case, replacement\<close>

text \<open>\<^verbatim>\<open>str(n)\<close> for an integer.\<close>

function show_pos :: "int \<Rightarrow> string" where
  "show_pos n =
     (if n < 10 then [char_of (48 + n)]
      else show_pos (n div 10) @ [char_of (48 + n mod 10)])"
  by pat_completeness auto
termination
  by (relation "measure nat") auto

declare show_pos.simps [simp del]

definition show_int :: "int \<Rightarrow> string" where
  "show_int i = (if i < 0 then CHR ''-'' # show_pos (- i) else show_pos i)"

text \<open>Upper case: the small letters \<open>a\<close> to \<open>z\<close> move down by 32.\<close>

definition upper_char :: "char \<Rightarrow> char" where
  "upper_char c =
     (let n = (of_char c :: int) in if 97 \<le> n \<and> n \<le> 122 then char_of (n - 32) else c)"

text \<open>\<^verbatim>\<open>str.capitalize()\<close>\<close>

definition capitalize :: "string \<Rightarrow> string" where
  "capitalize s = (case s of [] \<Rightarrow> [] | c # cs \<Rightarrow> upper_char c # lower cs)"

text \<open>
  \<^verbatim>\<open>str.title()\<close>: a letter after a letter is lower-cased, any other letter is
  upper-cased. The flag tells whether the previous character was a letter.
\<close>

definition is_cased :: "char \<Rightarrow> bool" where
  "is_cased c = (lower_char c \<noteq> c \<or> upper_char c \<noteq> c)"

fun title_from :: "bool \<Rightarrow> string \<Rightarrow> string" where
  "title_from prev [] = []"
| "title_from prev (c # cs) =
     (if is_cased c
      then (if prev then lower_char c else upper_char c) # title_from True cs
      else c # title_from False cs)"

definition title :: "string \<Rightarrow> string" where
  "title s = title_from False s"

text \<open>
  \<^verbatim>\<open>s.replace(old, new)\<close>: every occurrence of \<open>old\<close>, found from the left and
  without overlap, becomes \<open>new\<close>; an empty \<open>old\<close> occurs before every character and
  at the end.
\<close>

function replace :: "string \<Rightarrow> string \<Rightarrow> string \<Rightarrow> string" where
  "replace old new s =
     (if old = [] then new @ concat (map (\<lambda>c. c # new) s)
      else if s = [] then []
      else if prefix old s then new @ replace old new (drop (length old) s)
      else hd s # replace old new (tl s))"
  by pat_completeness auto
termination
  by (relation "measure (\<lambda>(old, new, s). length s)") auto

declare replace.simps [simp del]

subsection \<open>Differences of timestamps\<close>

text \<open>
  \<^verbatim>\<open>now - date\<close> is a \<^verbatim>\<open>timedelta\<close>, exact in microseconds: the days come from
  the ordinals of the two dates in the proleptic Gregorian calendar.
\<close>

definition days_before_year :: "int \<Rightarrow> int" where
  "days_before_year y = (y - 1) * 365 + (y - 1) div 4 - (y - 1) div 100 + (y - 1) div 400"

definition days_before_month :: "int \<Rightarrow> int \<Rightarrow> int" where
  "days_before_month y m = (\<Sum>k \<leftarrow> [1..m - 1]. days_in_month y k)"

definition toordinal :: "datetime \<Rightarrow> int" where
  "toordinal d = days_before_year (year d) + days_before_month (year d) (month d) + day d"

definition dt_micros :: "datetime \<Rightarrow> int" where
  "dt_micros d =
     (toordinal d * 86400 + hour d * 3600 + minute d * 60 + second d) * 1000000
       + microsecond d"

subsection \<open>Double precision\<close>

text \<open>
  A Python \<^verbatim>\<open>float\<close> is an IEEE 754 double. The true division of two integers and
  the division of two floats give the double nearest to the exact quotient, ties to
  the even significand. \<open>fl\<close> is that rounding on the rationals, with 53 bits of
  significand and no bound on the exponent (the quotients of the program lie between
  \<open>10\<^sup>-\<^sup>6\<close> and \<open>10\<^sup>1\<^sup>2\<close>, far from overflow and underflow).
\<close>

function log2 :: "int \<Rightarrow> int" where
  "log2 n = (if n < 2 then 0 else 1 + log2 (n div 2))"
  by pat_completeness auto
termination
  by (relation "measure nat") auto

declare log2.simps [simp del]

definition pow2 :: "int \<Rightarrow> rat" where
  "pow2 e = (if 0 \<le> e then 2 ^ nat e else 1 / 2 ^ nat (- e))"

text \<open>The exponent of a positive rational: \<open>pow2 (ilog2 a) \<le> a < pow2 (ilog2 a + 1)\<close>.\<close>

definition ilog2 :: "rat \<Rightarrow> int" where
  "ilog2 a =
     (if 1 \<le> a then log2 \<lfloor>a\<rfloor>
      else - (let n = \<lceil>1 / a\<rceil> in if n \<le> 1 then 0 else 1 + log2 (n - 1)))"

definition round_even :: "rat \<Rightarrow> int" where
  "round_even q =
     (let f = \<lfloor>q\<rfloor>; d = q - of_int f
      in if d < 1 / 2 then f else if 1 / 2 < d then f + 1
         else if even f then f else f + 1)"

definition fl :: "rat \<Rightarrow> rat" where
  "fl x =
     (if x = 0 then 0
      else let a = \<bar>x\<bar>; e = ilog2 a - 52
           in sgn x * of_int (round_even (a / pow2 e)) * pow2 e)"

text \<open>\<^verbatim>\<open>timedelta.total_seconds()\<close> of a difference of \<open>us\<close> microseconds.\<close>

definition total_seconds :: "int \<Rightarrow> rat" where
  "total_seconds us = fl (of_int us / 1000000)"

text \<open>\<^verbatim>\<open>int(seconds / k)\<close>: a float division, truncated towards zero.\<close>

definition int_div :: "rat \<Rightarrow> int \<Rightarrow> int" where
  "int_div seconds k =
     (let q = fl (seconds / of_int k) in if 0 \<le> q then \<lfloor>q\<rfloor> else \<lceil>q\<rceil>)"

subsection \<open>\<^verbatim>\<open>get_time_ago\<close>\<close>

text \<open>The unit with its count and the plural \<open>s\<close>.\<close>

definition ago :: "int \<Rightarrow> string \<Rightarrow> string" where
  "ago n unit = show_int n @ '' '' @ unit @ (if n \<noteq> 1 then ''s'' else '''') @ '' ago''"

text \<open>
  The function reads the clock (\<^verbatim>\<open>datetime.utcnow()\<close>); the reading is the
  argument \<open>now\<close>.
\<close>

definition get_time_ago :: "datetime \<Rightarrow> datetime \<Rightarrow> string" where
  "get_time_ago date now =
     (let seconds = total_seconds (dt_micros now - dt_micros date)
      in if seconds < 60 then ''just now''
         else if seconds < 3600 then ago (int_div seconds 60) ''minute''
         else if seconds < 86400 then ago (int_div seconds 3600) ''hour''
         else if seconds < 2592000 then ago (int_div seconds 86400) ''day''
         else ago (int_div seconds 2592000) ''month'')"

subsection \<open>\<^verbatim>\<open>format_event\<close>\<close>

text \<open>\<^verbatim>\<open>event.get('payload', {}).get(k, dflt)\<close> for the three keys read.\<close>

definition payload_commits :: "event \<Rightarrow> string list" where
  "payload_commits e =
     (case ev_payload e of
        None \<Rightarrow> []
      | Some p \<Rightarrow> (case commits p of None \<Rightarrow> [] | Some cs \<Rightarrow> cs))"

definition payload_ref_type :: "string \<Rightarrow> event \<Rightarrow> string" where
  "payload_ref_type dflt e =
     (case ev_payload e of
        None \<Rightarrow> dflt
      | Some p \<Rightarrow> (case ref_type p of None \<Rightarrow> dflt | Some r \<Rightarrow> r))"

definition payload_action :: "string \<Rightarrow> event \<Rightarrow> string" where
  "payload_action dflt e =
     (case ev_payload e of
        None \<Rightarrow> dflt
      | Some p \<Rightarrow> (case action p of None \<Rightarrow> dflt | Some a \<Rightarrow> a))"

text \<open>
  The description before the date is added. In the last branch \<^verbatim>\<open>event_type\<close> is
  \<^verbatim>\<open>None\<close> when the key \<^verbatim>\<open>type\<close> is absent, and \<^verbatim>\<open>None.replace\<close> raises
  AttributeError.
\<close>

definition describe :: "event \<Rightarrow> error + string" where
  "describe e =
     (let event_type = ev_type e; repo_name = repo_name_or ''unknown repo'' e
      in if event_type = Some ''PushEvent''
         then Inr (''Pushed '' @ show_int (int (length (payload_commits e))) @ '' commit(s) to ''
                   @ repo_name)
         else if event_type = Some ''CreateEvent''
         then Inr (''Created '' @ payload_ref_type ''repository'' e @ '' in '' @ repo_name)
         else if event_type = Some ''DeleteEvent''
         then Inr (''Deleted '' @ payload_ref_type ''branch'' e @ '' in '' @ repo_name)
         else if event_type = Some ''IssuesEvent''
         then Inr (capitalize (payload_action ''updated'' e) @ '' an issue in '' @ repo_name)
         else if event_type = Some ''IssueCommentEvent''
         then Inr (''Commented on an issue in '' @ repo_name)
         else if event_type = Some ''WatchEvent''
         then Inr (''Starred '' @ repo_name)
         else if event_type = Some ''ForkEvent''
         then Inr (''Forked '' @ repo_name)
         else if event_type = Some ''PullRequestEvent''
         then Inr (capitalize (payload_action ''updated'' e) @ '' a pull request in ''
                   @ repo_name)
         else if event_type = Some ''PullRequestReviewEvent''
         then Inr (''Reviewed a pull request in '' @ repo_name)
         else if event_type = Some ''PullRequestReviewCommentEvent''
         then Inr (''Commented on a pull request in '' @ repo_name)
         else if event_type = Some ''ReleaseEvent''
         then Inr (capitalize (payload_action ''published'' e) @ '' a release in ''
                   @ repo_name)
         else if event_type = Some ''MemberEvent''
         then Inr (''Added a collaborator to '' @ repo_name)
         else (case event_type of
                 None \<Rightarrow> Inl AttributeError
               | Some t \<Rightarrow> Inr (replace ''Event'' '''' t @ '' in '' @ repo_name)))"

text \<open>
  \<^verbatim>\<open>format_event(event, show_date)\<close>; \<open>now\<close> is the reading of the clock that
  \<^verbatim>\<open>get_time_ago\<close> takes when \<open>show_date\<close> holds.
\<close>

definition format_event :: "event \<Rightarrow> bool \<Rightarrow> datetime \<Rightarrow> error + string" where
  "format_event e show_date now =
     (case describe e of
        Inl exc \<Rightarrow> Inl exc
      | Inr description \<Rightarrow>
          if show_date
          then (case parse_event_date e of
                  Inl exc \<Rightarrow> Inl exc
                | Inr event_date \<Rightarrow>
                    Inr (description @ '' ('' @ get_time_ago event_date now @ '')''))
          else Inr description)"

subsection \<open>\<^verbatim>\<open>EVENT_TYPE_MAP\<close> and \<^verbatim>\<open>get_friendly_event_name\<close>\<close>

text \<open>The dictionary in the order of its literal, which is the order of its iteration.\<close>

definition EVENT_TYPE_MAP :: "(string \<times> string) list" where
  "EVENT_TYPE_MAP =
     [(''push'', ''PushEvent''),
      (''create'', ''CreateEvent''),
      (''delete'', ''DeleteEvent''),
      (''issues'', ''IssuesEvent''),
      (''issue_comment'', ''IssueCommentEvent''),
      (''star'', ''WatchEvent''),
      (''watch'', ''WatchEvent''),
      (''fork'', ''ForkEvent''),
      (''pr'', ''PullRequestEvent''),
      (''pull_request'', ''PullRequestEvent''),
      (''pr_review'', ''PullRequestReviewEvent''),
      (''pr_comment'', ''PullRequestReviewCommentEvent''),
      (''release'', ''ReleaseEvent''),
      (''member'', ''MemberEvent'')]"

definition get_friendly_event_name :: "string \<Rightarrow> string" where
  "get_friendly_event_name et =
     (case find (\<lambda>(friendly, github_type). github_type = et) EVENT_TYPE_MAP of
        Some (friendly, github_type) \<Rightarrow> title (replace ''_'' '' '' friendly)
      | None \<Rightarrow> replace ''Event'' '''' et)"

subsection \<open>\<^verbatim>\<open>display_activity\<close>\<close>

text \<open>\<^verbatim>\<open>sep.join(xs)\<close>\<close>

fun join :: "string \<Rightarrow> string list \<Rightarrow> string" where
  "join sep [] = []"
| "join sep [x] = x"
| "join sep (x # y # ys) = x @ sep @ join sep (y # ys)"

text \<open>
  \<^verbatim>\<open>date.strftime('%Y-%m-%d')\<close> as the C library of Linux gives it: the year
  without padding, month and day with two digits.
\<close>

definition pad2 :: "int \<Rightarrow> string" where
  "pad2 n = (if n < 10 then CHR ''0'' # show_int n else show_int n)"

definition strftime_date :: "datetime \<Rightarrow> string" where
  "strftime_date d = show_int (year d) @ ''-'' @ pad2 (month d) @ ''-'' @ pad2 (day d)"

text \<open>
  The output of a function is the list of the strings it prints, one for each call of
  \<^verbatim>\<open>print\<close>, together with the exception that ended it, if any. The clock is the
  sequence of its readings: \<open>clock k\<close> is what call number \<open>k\<close> of
  \<^verbatim>\<open>datetime.utcnow()\<close> in the run returns, and \<open>t\<close> counts the calls made so far.
\<close>

definition filter_desc :: "filters \<Rightarrow> string list" where
  "filter_desc f =
     (case event_type f of
        None \<Rightarrow> []
      | Some t \<Rightarrow> if t = [] then [] else [''Type: '' @ get_friendly_event_name t])
     @ (case repo f of
          None \<Rightarrow> []
        | Some r \<Rightarrow> if r = [] then [] else [''Repo: '' @ r])
     @ (case date_from f of
          None \<Rightarrow> []
        | Some d \<Rightarrow> [''Since: '' @ strftime_date d])"

definition display_header :: "event list \<Rightarrow> filters \<Rightarrow> string list" where
  "display_header events f =
     [CHR 0x0A # ''Recent Activity ('' @ show_int (int (length events)) @ '' events)'']
     @ (if filter_desc f \<noteq> [] then [''Filters: '' @ join '', '' (filter_desc f)] else [])
     @ [replicate 60 CHR ''-'']"

text \<open>The loop over the events: it ends at the first event that cannot be formatted.\<close>

fun print_events ::
  "event list \<Rightarrow> bool \<Rightarrow> (nat \<Rightarrow> datetime) \<Rightarrow> nat \<Rightarrow> string list \<times> error option" where
  "print_events [] show_dates clock t = ([], None)"
| "print_events (e # es) show_dates clock t =
     (case format_event e show_dates (clock t) of
        Inl err \<Rightarrow> ([], Some err)
      | Inr formatted \<Rightarrow>
          (case print_events es show_dates clock (if show_dates then Suc t else t) of
             (out, r) \<Rightarrow> ((''- '' @ formatted) # out, r)))"

definition display_activity ::
  "event list \<Rightarrow> filters \<Rightarrow> (nat \<Rightarrow> datetime) \<Rightarrow> nat \<Rightarrow> string list \<times> error option" where
  "display_activity events f clock t =
     (if events = [] then ([''No activity found matching the filters.''], None)
      else case print_events events (date_from f \<noteq> None) clock t of
             (out, r) \<Rightarrow> (display_header events f @ out, r))"

subsection \<open>\<^verbatim>\<open>int(s)\<close> on an argument\<close>

text \<open>
  \<^verbatim>\<open>int\<close> of a string: blanks around the number are dropped, one sign may come
  first, the digits may be separated by single underscores, and more than 4300 digits
  are refused. \<open>None\<close> is ValueError.
\<close>

definition is_space :: "char \<Rightarrow> bool" where
  "is_space c =
     (let n = (of_char c :: int) in (9 \<le> n \<and> n \<le> 13) \<or> n = 32)"

definition strip :: "string \<Rightarrow> string" where
  "strip s = rev (dropWhile is_space (rev (dropWhile is_space s)))"

fun grouped_digits :: "string \<Rightarrow> bool" where
  "grouped_digits [] = False"
| "grouped_digits [c] = is_digit c"
| "grouped_digits (c # d # cs) =
     (is_digit c \<and> (if d = CHR ''_'' then grouped_digits cs else grouped_digits (d # cs)))"

definition unsigned_int :: "string \<Rightarrow> int option" where
  "unsigned_int s =
     (if grouped_digits s \<and> length (filter is_digit s) \<le> 4300
      then Some (num_of (filter is_digit s)) else None)"

definition py_int :: "string \<Rightarrow> int option" where
  "py_int s =
     (case strip s of
        [] \<Rightarrow> None
      | c # cs \<Rightarrow>
          if c = CHR ''-'' then map_option uminus (unsigned_int cs)
          else if c = CHR ''+'' then unsigned_int cs
          else unsigned_int (c # cs))"

subsection \<open>Dates a week ago and at midnight\<close>

text \<open>The date of an ordinal, as \<^verbatim>\<open>date.fromordinal\<close> computes it.\<close>

definition ord2ymd :: "int \<Rightarrow> int \<times> int \<times> int" where
  "ord2ymd n =
     (let n0 = n - 1;
          n400 = n0 div 146097; n1 = n0 mod 146097;
          n100 = n1 div 36524; n2 = n1 mod 36524;
          n4 = n2 div 1461; n3 = n2 mod 1461;
          n1y = n3 div 365; n5 = n3 mod 365;
          y = n400 * 400 + 1 + n100 * 100 + n4 * 4 + n1y
      in if n1y = 4 \<or> n100 = 4 then (y - 1, 12, 31)
         else let m = (n5 + 50) div 32; preceding = days_before_month y m
              in if n5 < preceding
                 then (y, m - 1, n5 - (preceding - days_in_month y (m - 1)) + 1)
                 else (y, m, n5 - preceding + 1))"

text \<open>
  \<^verbatim>\<open>d - timedelta(days=n)\<close>: OverflowError (here \<open>None\<close>) when the result is
  before year 1 or after year 9999.
\<close>

definition sub_days :: "datetime \<Rightarrow> int \<Rightarrow> datetime option" where
  "sub_days d n =
     (let days = toordinal d - n
      in if 0 < days \<and> days \<le> 3652059
         then (case ord2ymd days of
                 (y, m, dd) \<Rightarrow> Some (d\<lparr>year := y, month := m, day := dd\<rparr>))
         else None)"

text \<open>\<^verbatim>\<open>d.replace(hour=0, minute=0, second=0, microsecond=0)\<close>\<close>

definition midnight :: "datetime \<Rightarrow> datetime" where
  "midnight d = d\<lparr>hour := 0, minute := 0, second := 0, microsecond := 0\<rparr>"

subsection \<open>\<^verbatim>\<open>parse_arguments\<close>\<close>

text \<open>
  The state of a run: the filters collected, the strings printed, and the number of
  clock readings taken.
\<close>

record run =
  r_filters :: filters
  r_out :: "string list"
  r_ticks :: nat

definition say :: "string \<Rightarrow> run \<Rightarrow> run" where
  "say line r = r\<lparr>r_out := r_out r @ [line]\<rparr>"

definition set_filters :: "(filters \<Rightarrow> filters) \<Rightarrow> run \<Rightarrow> run" where
  "set_filters upd r = r\<lparr>r_filters := upd (r_filters r)\<rparr>"

definition tick :: "run \<Rightarrow> run" where
  "tick r = r\<lparr>r_ticks := Suc (r_ticks r)\<rparr>"

text \<open>
  The body of the loop \<^verbatim>\<open>while i < len(args)\<close> at the argument \<open>arg = args[i]\<close>,
  with \<open>rest\<close> the arguments after it: either an exception leaves the loop, or the
  loop goes on with the arguments from the new position \<open>i\<close> on.
\<close>

definition step ::
  "(nat \<Rightarrow> datetime) \<Rightarrow> string \<Rightarrow> string list \<Rightarrow> run \<Rightarrow> (run \<times> error) + (string list \<times> run)" where
  "step clock arg rest r =
     (if arg = ''--type'' \<or> arg = ''-t'' then
        (case rest of
           [] \<Rightarrow> Inl (say ''Error: --type requires a value'' r, SystemExit 1)
         | v # rest' \<Rightarrow>
             (case map_of EVENT_TYPE_MAP (lower v) of
                Some github_type \<Rightarrow>
                  Inr (rest', set_filters (event_type_update (\<lambda>_. Some github_type)) r)
              | None \<Rightarrow>
                  Inr (rest',
                       say (''Warning: Unknown event type '' @ [CHR 0x27] @ lower v @ [CHR 0x27]
                            @ ''. Ignoring.'') r)))
      else if arg = ''--repo'' \<or> arg = ''-r'' then
        (case rest of
           [] \<Rightarrow> Inl (say ''Error: --repo requires a value'' r, SystemExit 1)
         | v # rest' \<Rightarrow> Inr (rest', set_filters (repo_update (\<lambda>_. Some v)) r))
      else if arg = ''--limit'' \<or> arg = ''-l'' then
        (case rest of
           [] \<Rightarrow> Inl (say ''Error: --limit requires a value'' r, SystemExit 1)
         | v # rest' \<Rightarrow>
             (case py_int v of
                None \<Rightarrow> Inl (say ''Error: --limit must be a number'' r, SystemExit 1)
              | Some n \<Rightarrow> Inr (rest', set_filters (limit_update (\<lambda>_. Some n)) r)))
      else if arg = ''--date'' \<or> arg = ''-d'' then
        (case rest of
           [] \<Rightarrow> Inl (say ''Error: --date requires a value'' r, SystemExit 1)
         | v # rest' \<Rightarrow>
             (case strptime_date v of
                None \<Rightarrow>
                  Inl (say ''Error: --date must be in format YYYY-MM-DD'' r, SystemExit 1)
              | Some d \<Rightarrow> Inr (rest', set_filters (date_from_update (\<lambda>_. Some d)) r)))
      else if arg = ''--today'' then
        Inr (rest,
             set_filters (date_from_update (\<lambda>_. Some (midnight (clock (r_ticks r))))) (tick r))
      else if arg = ''--week'' then
        (case sub_days (clock (r_ticks r)) 7 of
           None \<Rightarrow> Inl (tick r, OverflowError)
         | Some week_ago \<Rightarrow>
             Inr (rest, set_filters (date_from_update (\<lambda>_. Some week_ago)) (tick r)))
      else
        Inr (rest,
             say (''Warning: Unknown argument '' @ [CHR 0x27] @ arg @ [CHR 0x27]
                  @ ''. Ignoring.'') r))"

lemma step_shorter: "step clock arg rest r = Inr (rest', r') \<Longrightarrow> length rest' \<le> length rest"
  by (simp add: step_def split: if_splits list.splits option.splits)

text \<open>
  The loop on the arguments from position \<open>i\<close> on. It ends with the state and the
  exception that left it, if any.
\<close>

function parse_loop :: "(nat \<Rightarrow> datetime) \<Rightarrow> string list \<Rightarrow> run \<Rightarrow> run \<times> error option" where
  "parse_loop clock [] r = (r, None)"
| "parse_loop clock (arg # rest) r =
     (case step clock arg rest r of
        Inl (r', exc) \<Rightarrow> (r', Some exc)
      | Inr (rest', r') \<Rightarrow> parse_loop clock rest' r')"
  by pat_completeness auto
termination
  by (relation "measure (\<lambda>(clock, args, r). length args)")
     (auto dest: step_shorter simp: less_Suc_eq_le)

definition start :: run where
  "start = \<lparr>r_filters = no_filters, r_out = [], r_ticks = 0\<rparr>"

text \<open>
  \<^verbatim>\<open>parse_arguments()\<close> on \<^verbatim>\<open>sys.argv[1:]\<close>: the user name (\<open>None\<close> when there
  is no argument) with the state after the loop, and the exception that left it.
\<close>

definition parse_arguments ::
  "(nat \<Rightarrow> datetime) \<Rightarrow> string list \<Rightarrow> (string option \<times> run) \<times> error option" where
  "parse_arguments clock args =
     (case args of
        [] \<Rightarrow> ((None, start), None)
      | username # rest \<Rightarrow>
          (case parse_loop clock rest start of (r, exc) \<Rightarrow> ((Some username, r), exc)))"

subsection \<open>\<^verbatim>\<open>fetch_user_activity\<close>\<close>

text \<open>
  What the request for a user brings back: one of the three exceptions the function
  handles, or the decoded list of events. The network is a function from the user
  name to that.
\<close>

datatype response =
    HTTPError int string
  | URLError string
  | JSONDecodeError
  | Events "event list"

definition fetch_user_activity :: "response \<Rightarrow> run \<Rightarrow> string \<Rightarrow> (event list \<times> run) \<times> error option" where
  "fetch_user_activity resp r username =
     (case resp of
        Events events \<Rightarrow> ((events, r), None)
      | HTTPError code reason \<Rightarrow>
          (([], say (if code = 404
                     then ''Error: User '' @ [CHR 0x27] @ username @ [CHR 0x27] @ '' not found.''
                     else ''Error: HTTP '' @ show_int code @ '' - '' @ reason) r),
           Some (SystemExit 1))
      | URLError reason \<Rightarrow>
          (([], say (''Details: '' @ reason)
                  (say ''Error: Could not connect to GitHub. Check your internet connection.'' r)),
           Some (SystemExit 1))
      | JSONDecodeError \<Rightarrow>
          (([], say ''Error: Received invalid data from GitHub.'' r), Some (SystemExit 1)))"

subsection \<open>\<^verbatim>\<open>main\<close> and the exit status\<close>

definition usage_text :: "string list" where
  "usage_text =
     [''GitHub User Activity CLI - Filter by event type, repo, or date'',
      CHR 0x0A # ''Usage:'',
      ''  python github_activity.py <username> [options]'',
      CHR 0x0A # ''Options:'',
      ''  --type, -t <type>    Filter by event type'',
      ''  --repo, -r <repo>    Filter by repository name'',
      ''  --limit, -l <num>    Limit number of results'',
      ''  --date, -d <date>    Show events after date (YYYY-MM-DD)'',
      ''  --today              Show only today'' @ [CHR 0x27] @ ''s events'',
      ''  --week               Show events from last 7 days'',
      CHR 0x0A # ''Event Types:'',
      ''  push, create, delete, issues, issue_comment, star,'',
      ''  fork, pr (pull_request), pr_review, pr_comment,'',
      ''  release, member'',
      CHR 0x0A # ''Examples:'',
      ''  python github_activity.py kamranahmedse'',
      ''  python github_activity.py kamranahmedse --type push'',
      ''  python github_activity.py kamranahmedse --type issues --limit 5'',
      ''  python github_activity.py kamranahmedse --repo developer-roadmap'',
      ''  python github_activity.py kamranahmedse --date 2024-01-01'',
      ''  python github_activity.py kamranahmedse --week --type push'']"

text \<open>
  The exit status of the process: the argument of \<^verbatim>\<open>sys.exit\<close>, 1 for an exception
  that nothing catches, 0 when \<^verbatim>\<open>main\<close> returns.
\<close>

fun exit_status :: "error option \<Rightarrow> int" where
  "exit_status None = 0"
| "exit_status (Some (SystemExit n)) = n"
| "exit_status (Some _) = 1"

text \<open>The run of the program: what it prints and its exit status.\<close>

definition main ::
  "string list \<Rightarrow> (nat \<Rightarrow> datetime) \<Rightarrow> (string \<Rightarrow> response) \<Rightarrow> string list \<times> int" where
  "main args clock net =
     (case parse_arguments clock args of
        ((username, r), Some exc) \<Rightarrow> (r_out r, exit_status (Some exc))
      | ((None, r), None) \<Rightarrow> (r_out r @ usage_text, 1)
      | ((Some username, r), None) \<Rightarrow>
          (let r1 = say (''Fetching activity for GitHub user: '' @ username @ ''...'') r
           in case fetch_user_activity (net username) r1 username of
                ((events, r2), Some exc) \<Rightarrow> (r_out r2, exit_status (Some exc))
              | ((events, r2), None) \<Rightarrow>
                  (case filter_events events (r_filters r2) of
                     Inl exc \<Rightarrow> (r_out r2, exit_status (Some exc))
                   | Inr filtered_events \<Rightarrow>
                       (case display_activity filtered_events (r_filters r2) clock
                               (r_ticks r2) of
                          (out, exc) \<Rightarrow> (r_out r2 @ out, exit_status exc)))))"

subsection \<open>The constraints of a filter specification, as the specification words them\<close>


text \<open>The value of \<^verbatim>\<open>created_at\<close> is absent or a string.\<close>

definition text_date :: "event \<Rightarrow> bool" where
  "text_date e = (ev_created_at e \<noteq> Some NotText)"

subsection \<open>Sample records\<close>

definition push_ev :: event where
  "push_ev =
     \<lparr>ev_type = Some ''PushEvent'', ev_repo = Some \<lparr>name = Some ''octo/Repo''\<rparr>,
      ev_payload = Some \<lparr>commits = Some [''a1'', ''b2'', ''c3''], ref_type = None,
                           action = None\<rparr>,
      ev_created_at = Some (Text ''2024-01-15T10:30:00Z'')\<rparr>"

definition watch_ev :: event where
  "watch_ev =
     \<lparr>ev_type = Some ''WatchEvent'', ev_repo = Some \<lparr>name = Some ''octo/other''\<rparr>,
      ev_payload = None, ev_created_at = Some (Text ''2024-02-01T08:00:00Z'')\<rparr>"

definition bare_ev :: event where
  "bare_ev =
     \<lparr>ev_type = Some ''FooEvent'', ev_repo = None, ev_payload = None,
      ev_created_at = None\<rparr>"

subsection \<open>Timestamp forms\<close>






definition y2000 :: datetime where
  "y2000 = \<lparr>year = 2000, month = 1, day = 1, hour = 0, minute = 0, second = 0, microsecond = 0\<rparr>"

subsection \<open>Categories of the formatter\<close>

text \<open>The twelve categories that \<^verbatim>\<open>format_event\<close> recognizes.\<close>

definition known_types :: "string list" where
  "known_types =
     [''PushEvent'', ''CreateEvent'', ''DeleteEvent'', ''IssuesEvent'', ''IssueCommentEvent'',
      ''WatchEvent'', ''ForkEvent'', ''PullRequestEvent'', ''PullRequestReviewEvent'',
      ''PullRequestReviewCommentEvent'', ''ReleaseEvent'', ''MemberEvent'']"

text \<open>A category without its trailing \<^verbatim>\<open>Event\<close>, as the specification words it.\<close>

definition without_trailing_Event :: "string \<Rightarrow> string" where
  "without_trailing_Event t = (if suffix ''Event'' t then take (length t - 5) t else t)"

text \<open>Sample records for the formatter.\<close>

definition no_type_ev :: event where
  "no_type_ev =
     \<lparr>ev_type = None, ev_repo = Some \<lparr>name = Some ''octo/repo''\<rparr>, ev_payload = None,
      ev_created_at = Some (Text ''2024-01-15T10:30:00Z'')\<rparr>"

definition foo_ev :: event where
  "foo_ev =
     \<lparr>ev_type = Some ''FooEvent'', ev_repo = Some \<lparr>name = Some ''x''\<rparr>, ev_payload = None,
      ev_created_at = None\<rparr>"

definition foo_bar_ev :: event where
  "foo_bar_ev =
     \<lparr>ev_type = Some ''FooEventBar'', ev_repo = Some \<lparr>name = Some ''x''\<rparr>,
      ev_payload = None, ev_created_at = None\<rparr>"

text \<open>
  An event that \<^verbatim>\<open>format_event\<close> formats: it has a category and, when the date is
  shown, its \<^verbatim>\<open>created_at\<close> is absent or a string.
\<close>

definition formattable :: "bool \<Rightarrow> event \<Rightarrow> bool" where
  "formattable show_dates e = (ev_type e \<noteq> None \<and> (if show_dates then text_date e else True))"

text \<open>A sample reading of the clock.\<close>

definition feb_2024 :: datetime where
  "feb_2024 = \<lparr>year = 2024, month = 2, day = 1, hour = 8, minute = 0, second = 30, microsecond = 250000\<rparr>"

subsection \<open>The relative age, as the specification words it\<close>

text \<open>The tiers of the specification on the exact difference \<open>diff\<close> in seconds.\<close>

definition relativeAge :: "rat \<Rightarrow> string" where
  "relativeAge diff =
     (if diff < 60 then ''just now''
      else if diff < 3600 then ago \<lfloor>diff / 60\<rfloor> ''minute''
      else if diff < 86400 then ago \<lfloor>diff / 3600\<rfloor> ''hour''
      else if diff < 2592000 then ago \<lfloor>diff / 86400\<rfloor> ''day''
      else ago \<lfloor>diff / 2592000\<rfloor> ''month'')"

text \<open>The last microsecond of 17 April 1972.\<close>

definition apr_1972 :: datetime where
  "apr_1972 = \<lparr>year = 1972, month = 4, day = 17, hour = 23, minute = 59, second = 59,
     microsecond = 999999\<rparr>"

subsection \<open>Auxiliary predicates\<close>

text \<open>The filters on the category and on the repository keep the records of one predicate.\<close>

definition keeps :: "filters \<Rightarrow> event \<Rightarrow> bool" where
  "keeps f e =
     ((case event_type f of None \<Rightarrow> True | Some t \<Rightarrow> t = [] \<or> ev_type e = Some t)
      \<and> (case repo f of None \<Rightarrow> True
           | Some r \<Rightarrow> r = [] \<or> str_in (lower r) (lower (repo_name_or [] e))))"

definition value_filters :: "filters \<Rightarrow> event list \<Rightarrow> error + event list" where
  "value_filters f E = by_date f (by_repo f (by_type f E))"

text \<open>The predicate of the three value filters, where the date filter raises nothing.\<close>

definition passes :: "filters \<Rightarrow> event \<Rightarrow> bool" where
  "passes f e =
     (keeps f e
      \<and> (case date_from f of None \<Rightarrow> True | Some d \<Rightarrow> on_or_after d e = Inr True))"


text \<open>The flags that take the next argument as their value.\<close>

definition value_flags :: "string list" where
  "value_flags = [''--type'', ''-t'', ''--repo'', ''-r'', ''--limit'', ''-l'', ''--date'', ''-d'']"

text \<open>The arguments after the user name are read to the end: no exception leaves the loop.\<close>

definition parses :: "(nat \<Rightarrow> datetime) \<Rightarrow> string list \<Rightarrow> bool" where
  "parses clock rest = (snd (parse_loop clock rest start) = None)"

text \<open>The state after the loop on the arguments after the user name.\<close>

definition parsed :: "(nat \<Rightarrow> datetime) \<Rightarrow> string list \<Rightarrow> run" where
  "parsed clock rest = fst (parse_loop clock rest start)"

text \<open>A run succeeds: a user name, arguments read to the end, events fetched, filtered and all formatted.\<close>

definition run_succeeds ::
  "string list \<Rightarrow> (nat \<Rightarrow> datetime) \<Rightarrow> (string \<Rightarrow> response) \<Rightarrow> bool" where
  "run_succeeds args clock net =
     (\<exists>u rest es F.
        args = u # rest \<and> parses clock rest \<and> net u = Events es
        \<and> filter_events es (r_filters (parsed clock rest)) = Inr F
        \<and> list_all (formattable (date_from (r_filters (parsed clock rest)) \<noteq> None)) F)"

section \<open>Properties\<close>

subsection \<open>Auxiliary facts\<close>

lemma sample_events_distinct:
  "push_ev \<noteq> watch_ev" "push_ev \<noteq> bare_ev" "watch_ev \<noteq> bare_ev"
  by (simp_all add: push_ev_def watch_ev_def bare_ev_def)

lemma slice_to_pos: "0 < n \<Longrightarrow> slice_to xs n = take (nat (min n (int (length xs)))) xs"
  by (auto simp: slice_to_def min_def)


text \<open>A comprehension whose condition raises nowhere is a filter.\<close>

lemma filter_e_Inr:
  "filter_e p xs = Inr ys \<Longrightarrow>
     ys = filter (\<lambda>x. p x = Inr True) xs \<and> (\<forall>x \<in> set xs. \<exists>b. p x = Inr b)"
  by (induction xs arbitrary: ys) (auto split: sum.splits if_splits)

lemma filter_e_total:
  "\<forall>x \<in> set xs. \<exists>b. p x = Inr b \<Longrightarrow> filter_e p xs = Inr (filter (\<lambda>x. p x = Inr True) xs)"
  by (induction xs) (auto split: sum.splits)

lemma filter_e_Inl: "filter_e p xs = Inl exc \<Longrightarrow> \<exists>x \<in> set xs. p x = Inl exc"
  by (induction xs) (auto split: sum.splits)


lemma on_or_after_Inr: "on_or_after d e = Inr b \<Longrightarrow> text_date e"
  by (auto simp: on_or_after_def parse_event_date_def text_date_def
      split: option.splits json_text.splits sum.splits)

lemma on_or_after_Inl: "on_or_after d e = Inl exc \<Longrightarrow> exc = TypeError \<and> \<not> text_date e"
  by (auto simp: on_or_after_def parse_event_date_def text_date_def
      split: option.splits json_text.splits sum.splits)

lemma by_repo_by_type: "by_repo f (by_type f E) = filter (keeps f) E"
  by (auto simp: by_repo_def by_type_def keeps_def split: option.splits intro!: filter_cong)

lemma filter_events_split:
  "filter_events E f
     = (case value_filters f E of Inl exc \<Rightarrow> Inl exc | Inr F \<Rightarrow> Inr (by_limit f F))"
  by (simp add: filter_events_def value_filters_def)

lemma value_filters_limit_irrelevant [simp]:
  "value_filters (f\<lparr>limit := l\<rparr>) E = value_filters f E"
  by (simp add: value_filters_def by_date_def by_repo_def by_type_def)


lemma value_filters_Inr:
  "value_filters f E = Inr F \<Longrightarrow> F = filter (passes f) E"
proof (cases "date_from f")
  case None
  assume "value_filters f E = Inr F"
  with None show ?thesis
    by (auto simp: value_filters_def by_date_def by_repo_by_type passes_def intro!: filter_cong)
next
  case (Some d)
  assume "value_filters f E = Inr F"
  with Some have "filter_e (on_or_after d) (filter (keeps f) E) = Inr F"
    by (simp add: value_filters_def by_date_def by_repo_by_type)
  then have "F = filter (\<lambda>x. on_or_after d x = Inr True) (filter (keeps f) E)"
    using filter_e_Inr by blast
  with Some show ?thesis
    by (auto simp: passes_def intro!: filter_cong)
qed


lemma value_filters_Inl:
  "value_filters f E = Inl exc \<Longrightarrow>
     exc = TypeError \<and> date_from f \<noteq> None \<and> \<not> list_all text_date E"
proof -
  assume a: "value_filters f E = Inl exc"
  then obtain d where d: "date_from f = Some d"
    by (cases "date_from f") (auto simp: value_filters_def by_date_def)
  with a have "filter_e (on_or_after d) (filter (keeps f) E) = Inl exc"
    by (simp add: value_filters_def by_date_def by_repo_by_type)
  then obtain x where "x \<in> set E" "on_or_after d x = Inl exc"
    using filter_e_Inl by fastforce
  then show ?thesis
    using d on_or_after_Inl by (auto simp: list_all_iff)
qed

text \<open>Filtering a part of a value-filtered sequence again changes nothing.\<close>

lemma value_filters_again:
  "set F \<subseteq> set (filter (passes f) E) \<Longrightarrow> value_filters f F = Inr F"
proof -
  assume s: "set F \<subseteq> set (filter (passes f) E)"
  then have p: "\<forall>x \<in> set F. passes f x" by auto
  have k: "filter (keeps f) F = F"
    using p by (auto simp: passes_def intro: filter_True)
  show ?thesis
  proof (cases "date_from f")
    case None
    then show ?thesis
      by (simp add: value_filters_def by_date_def by_repo_by_type k)
  next
    case (Some d)
    with p have o: "\<forall>x \<in> set F. on_or_after d x = Inr True"
      by (simp add: passes_def)
    then have "\<forall>x \<in> set F. \<exists>b. on_or_after d x = Inr b" by blast
    then have "filter_e (on_or_after d) F = Inr (filter (\<lambda>x. on_or_after d x = Inr True) F)"
      by (rule filter_e_total)
    moreover have "filter (\<lambda>x. on_or_after d x = Inr True) F = F"
      using o by (auto intro: filter_True)
    ultimately show ?thesis
      using Some by (simp add: value_filters_def by_date_def by_repo_by_type k)
  qed
qed



lemma set_by_limit: "set (by_limit f F) \<subseteq> set F"
  by (auto simp: by_limit_def slice_to_def split: option.splits dest: in_set_takeD)

subsection \<open>The result limit\<close>

lemma filter_events_only_limit:
  "filter_events E (no_filters\<lparr>limit := Some N\<rparr>) = Inr (if N = 0 then E else slice_to E N)"
  by (simp add: filter_events_def no_filters_def by_limit_def by_date_def by_repo_def
      by_type_def)

lemma limit_prefix_positive:
  "0 < N \<Longrightarrow>
     filter_events E (no_filters\<lparr>limit := Some N\<rparr>) = Inr (take (nat (min N (int (length E)))) E)"
  by (auto simp: filter_events_only_limit slice_to_pos min_def)

text \<open>
  C1. The claim asks for the prefix of length \<open>min N |E|\<close>, the empty sequence at
  \<open>N = 0\<close>. At \<open>N = 0\<close> the guard \<^verbatim>\<open>if filters.get('limit'):\<close> is false, the
  slice is skipped and the whole sequence comes back, against the docstring
  \<^verbatim>\<open>limit: Maximum number of events to return\<close>. (For \<open>N \<ge> 1\<close> the program does
  return that prefix: \<open>limit_prefix_positive\<close>.)
\<close>

theorem limit_zero_returns_all:
  "filter_events [push_ev, watch_ev] (no_filters\<lparr>limit := Some 0\<rparr>) = Inr [push_ev, watch_ev]
   \<and> take (nat (min 0 (int (length [push_ev, watch_ev])))) [push_ev, watch_ev] = []"
  by (simp add: filter_events_only_limit)




subsection \<open>Idempotence\<close>

text \<open>
  C4, as amended. For every event sequence \<open>E\<close> and every filter specification \<open>S\<close>
  whose limit is absent or not negative, filtering twice is filtering once (and
  raising once, where the first pass raises).
\<close>

theorem filter_events_idempotent:
  "(case limit f of None \<Rightarrow> True | Some n \<Rightarrow> 0 \<le> n) \<Longrightarrow>
     (case filter_events E f of Inl exc \<Rightarrow> Inl exc | Inr F \<Rightarrow> filter_events F f)
       = filter_events E f"
proof (cases "value_filters f E")
  case (Inl exc)
  then show ?thesis by (simp add: filter_events_split)
next
  case (Inr V)
  assume l: "case limit f of None \<Rightarrow> True | Some n \<Rightarrow> 0 \<le> n"
  have V: "V = filter (passes f) E"
    using Inr by (rule value_filters_Inr)
  have again: "value_filters f (by_limit f V) = Inr (by_limit f V)"
    using set_by_limit [of f V] V by (intro value_filters_again [of _ f E]) simp
  have "by_limit f (by_limit f V) = by_limit f V"
    using l by (auto simp: by_limit_def slice_to_def split: option.splits)
  with Inr again show ?thesis
    by (simp add: filter_events_split)
qed

theorem filter_events_idempotent_witness:
  "(case limit (no_filters\<lparr>event_type := Some ''WatchEvent'', limit := Some 1\<rparr>) of
      None \<Rightarrow> True | Some n \<Rightarrow> 0 \<le> n)
   \<and> filter_events [push_ev, watch_ev, watch_ev]
        (no_filters\<lparr>event_type := Some ''WatchEvent'', limit := Some 1\<rparr>) = Inr [watch_ev]
   \<and> filter_events [watch_ev]
        (no_filters\<lparr>event_type := Some ''WatchEvent'', limit := Some 1\<rparr>) = Inr [watch_ev]"
  using filter_events_idempotent
    [of "no_filters\<lparr>event_type := Some ''WatchEvent'', limit := Some 1\<rparr>"
        "[push_ev, watch_ev, watch_ev]"]
  by (simp add: filter_events_def no_filters_def by_limit_def by_date_def by_repo_def
      by_type_def slice_to_def push_ev_def watch_ev_def)

text \<open>With limit \<open>-1\<close> each pass drops one more record.\<close>

theorem filter_events_idempotent_counterexample:
  "filter_events [push_ev, watch_ev, bare_ev] (no_filters\<lparr>limit := Some (- 1)\<rparr>)
     = Inr [push_ev, watch_ev]
   \<and> filter_events [push_ev, watch_ev] (no_filters\<lparr>limit := Some (- 1)\<rparr>) = Inr [push_ev]
   \<and> [push_ev] \<noteq> [push_ev, watch_ev]"
  by (simp add: filter_events_only_limit slice_to_def)

subsection \<open>Order and the value constraints\<close>




subsection \<open>Timestamps that do not parse\<close>

















subsection \<open>The formatter\<close>

lemma describe_no_type: "ev_type e = None \<Longrightarrow> describe e = Inl AttributeError"
  by (simp add: describe_def)

text \<open>
  C2. The claim asks that the formatter does not fail when the category is absent. On a
  record without the key \<^verbatim>\<open>type\<close> the program reaches
  \<^verbatim>\<open>event_type.replace('Event', '')\<close> with \<^verbatim>\<open>event_type = None\<close>, and the call
  raises AttributeError, with and without the date.
\<close>

theorem format_event_absent_type_raises:
  "format_event no_type_ev False datetime_min = Inl AttributeError
   \<and> format_event no_type_ev True datetime_min = Inl AttributeError"
  by (simp add: format_event_def describe_no_type no_type_ev_def)

lemma describe_unknown:
  "ev_type e = Some t \<Longrightarrow> t \<notin> set known_types \<Longrightarrow>
     describe e = Inr (replace ''Event'' '''' t @ '' in '' @ repo_name_or ''unknown repo'' e)"
  by (simp add: describe_def known_types_def)

text \<open>
  C8, as amended. For every event record whose category is a non-empty string not among
  the recognized categories, the formatter returns the category with every occurrence
  of \<^verbatim>\<open>Event\<close> removed, then \<^verbatim>\<open> in \<close> and the repository name
  (\<^verbatim>\<open>unknown repo\<close> when it is absent).
\<close>

theorem format_event_fallback:
  "ev_type e = Some t \<Longrightarrow> t \<noteq> [] \<Longrightarrow> t \<notin> set known_types \<Longrightarrow>
     format_event e False now
       = Inr (replace ''Event'' '''' t @ '' in '' @ repo_name_or ''unknown repo'' e)"
  by (simp add: format_event_def describe_unknown)

lemma replace_FooEvent: "replace ''Event'' '''' ''FooEvent'' = ''Foo''"
  by code_simp

lemma replace_FooEventBar: "replace ''Event'' '''' ''FooEventBar'' = ''FooBar''"
  by code_simp

theorem format_event_fallback_witness:
  "ev_type foo_ev = Some ''FooEvent'' \<and> ''FooEvent'' \<noteq> [] \<and> ''FooEvent'' \<notin> set known_types
   \<and> format_event foo_ev False datetime_min = Inr ''Foo in x''"
proof -
  have h1: "ev_type foo_ev = Some ''FooEvent''" by (simp add: foo_ev_def)
  have h2: "''FooEvent'' \<noteq> []" by simp
  have h3: "''FooEvent'' \<notin> set known_types" by (simp add: known_types_def)
  have r: "repo_name_or ''unknown repo'' foo_ev = ''x''"
    by (simp add: repo_name_or_def foo_ev_def)
  show ?thesis
    using h1 h2 h3 format_event_fallback [OF h1 h2 h3, of datetime_min]
    by (simp add: replace_FooEvent r)
qed

text \<open>
  The category \<^verbatim>\<open>FooEventBar\<close> has no trailing \<^verbatim>\<open>Event\<close>, yet the formatter
  removes the inner one.
\<close>

theorem format_event_fallback_counterexample:
  "ev_type foo_bar_ev = Some ''FooEventBar'' \<and> ''FooEventBar'' \<notin> set known_types
   \<and> without_trailing_Event ''FooEventBar'' = ''FooEventBar''
   \<and> format_event foo_bar_ev False datetime_min = Inr ''FooBar in x''"
proof -
  have h1: "ev_type foo_bar_ev = Some ''FooEventBar''" by (simp add: foo_bar_ev_def)
  have h3: "''FooEventBar'' \<notin> set known_types" by (simp add: known_types_def)
  have w: "without_trailing_Event ''FooEventBar'' = ''FooEventBar''"
    by (simp add: without_trailing_Event_def suffix_def)
  have r: "repo_name_or ''unknown repo'' foo_bar_ev = ''x''"
    by (simp add: repo_name_or_def foo_bar_ev_def)
  have d: "describe foo_bar_ev = Inr (''FooBar'' @ '' in '' @ ''x'')"
    using describe_unknown [OF h1 h3] by (simp only: replace_FooEventBar r)
  have f: "format_event foo_bar_ev False datetime_min = Inr ''FooBar in x''"
    unfolding format_event_def d by simp
  show ?thesis by (intro conjI h1 h3 w f)
qed

subsection \<open>The display\<close>

lemma describe_typed: "ev_type e \<noteq> None \<Longrightarrow> \<exists>d. describe e = Inr d"
  by (auto simp: describe_def Let_def)

lemma parse_event_date_text: "text_date e \<Longrightarrow> \<exists>t. parse_event_date e = Inr t"
  by (auto simp: parse_event_date_def text_date_def split: option.splits json_text.splits)

lemma parse_event_date_not_text: "\<not> text_date e \<Longrightarrow> parse_event_date e = Inl TypeError"
  by (auto simp: parse_event_date_def text_date_def split: option.splits json_text.splits)

lemma format_event_no_type: "ev_type e = None \<Longrightarrow> format_event e sd now = Inl AttributeError"
  by (simp add: format_event_def describe_no_type)

lemma format_event_plain:
  "ev_type e \<noteq> None \<Longrightarrow> format_event e False now = Inr (projr (describe e))"
  using describe_typed [of e] by (auto simp: format_event_def)

lemma format_event_dated:
  "ev_type e \<noteq> None \<Longrightarrow> text_date e \<Longrightarrow>
     format_event e True now
       = Inr (projr (describe e) @ '' (''
              @ get_time_ago (projr (parse_event_date e)) now @ '')'')"
  using describe_typed [of e] parse_event_date_text [of e] by (auto simp: format_event_def)

lemma format_event_not_text:
  "ev_type e \<noteq> None \<Longrightarrow> \<not> text_date e \<Longrightarrow> format_event e True now = Inl TypeError"
  using describe_typed [of e] parse_event_date_not_text [of e]
  by (auto simp: format_event_def)

lemma print_events_no_dates:
  "print_events E False clock t
     = (map (\<lambda>e. ''- '' @ projr (describe e)) (takeWhile (formattable False) E),
        case dropWhile (formattable False) E of
          [] \<Rightarrow> None
        | e # es \<Rightarrow> Some (if ev_type e = None then AttributeError else TypeError))"
proof (induction E)
  case Nil
  then show ?case by simp
next
  case (Cons e E)
  show ?case
  proof (cases "ev_type e = None")
    case True
    then show ?thesis by (simp add: format_event_no_type formattable_def)
  next
    case False
    then have "format_event e False (clock t) = Inr (projr (describe e))"
      by (rule format_event_plain)
    with False Cons show ?thesis by (simp add: formattable_def)
  qed
qed

lemma print_events_dates:
  "print_events E True clock t
     = (map (\<lambda>(i, e). ''- '' @ projr (describe e) @ '' (''
                 @ get_time_ago (projr (parse_event_date e)) (clock i) @ '')'')
            (enumerate t (takeWhile (formattable True) E)),
        case dropWhile (formattable True) E of
          [] \<Rightarrow> None
        | e # es \<Rightarrow> Some (if ev_type e = None then AttributeError else TypeError))"
proof (induction E arbitrary: t)
  case Nil
  then show ?case by simp
next
  case (Cons e E)
  show ?case
  proof (cases "ev_type e = None")
    case True
    then show ?thesis by (simp add: format_event_no_type formattable_def)
  next
    case False
    show ?thesis
    proof (cases "text_date e")
      case True
      with False have "format_event e True (clock t)
          = Inr (projr (describe e) @ '' (''
                 @ get_time_ago (projr (parse_event_date e)) (clock t) @ '')'')"
        by (rule format_event_dated)
      with False True Cons show ?thesis by (simp add: formattable_def)
    next
      case nt: False
      with False have "format_event e True (clock t) = Inl TypeError"
        by (rule format_event_not_text)
      with False nt show ?thesis by (simp add: formattable_def)
    qed
  qed
qed

lemma map_enumerate_snd: "map (\<lambda>(i, e). g e) (enumerate t E) = map g E"
  by (induction E arbitrary: t) simp_all

text \<open>
  C10. When the display gets a non-empty list of events, it prints the header and one
  line for each event up to the first one that cannot be formatted (where the
  exception ends it): the description alone when no date filter is set, and the
  description followed by the relative age in brackets when a date filter is set. The
  age of an event is taken at the clock reading of its turn.
\<close>

theorem display_shows_age_iff_date_filter:
  "E \<noteq> [] \<Longrightarrow>
     display_activity E f clock t
       = (display_header E f
            @ map (\<lambda>(i, e). ''- '' @ projr (describe e)
                     @ (case date_from f of
                          None \<Rightarrow> []
                        | Some d \<Rightarrow> '' (''
                            @ get_time_ago (projr (parse_event_date e)) (clock i) @ '')''))
                (enumerate t (takeWhile (formattable (date_from f \<noteq> None)) E)),
          case dropWhile (formattable (date_from f \<noteq> None)) E of
            [] \<Rightarrow> None
          | e # es \<Rightarrow> Some (if ev_type e = None then AttributeError else TypeError))"
proof (cases "date_from f")
  case None
  assume "E \<noteq> []"
  then show ?thesis
    using None by (simp add: display_activity_def print_events_no_dates map_enumerate_snd)
next
  case (Some d)
  assume "E \<noteq> []"
  then show ?thesis
    using Some by (simp add: display_activity_def print_events_dates)
qed

theorem display_shows_age_iff_date_filter_witness:
  "[push_ev, watch_ev] \<noteq> []
   \<and> display_activity [push_ev, watch_ev] (no_filters\<lparr>date_from := Some y2000\<rparr>)
        (\<lambda>k. feb_2024) 0
       = ([CHR 0x0A # ''Recent Activity (2 events)'', ''Filters: Since: 2000-01-01'',
           ''------------------------------------------------------------'',
           ''- Pushed 3 commit(s) to octo/Repo (16 days ago)'',
           ''- Starred octo/other (just now)''], None)
   \<and> display_activity [push_ev, watch_ev] no_filters (\<lambda>k. feb_2024) 0
       = ([CHR 0x0A # ''Recent Activity (2 events)'',
           ''------------------------------------------------------------'',
           ''- Pushed 3 commit(s) to octo/Repo'', ''- Starred octo/other''], None)"
proof -
  have h1: "[push_ev, watch_ev] \<noteq> []" by simp
  have d1: "dropWhile (formattable (date_from (no_filters\<lparr>date_from := Some y2000\<rparr>) \<noteq> None))
      [push_ev, watch_ev] = []"
    by (simp add: formattable_def text_date_def push_ev_def watch_ev_def)
  have d2: "dropWhile (formattable (date_from no_filters \<noteq> None)) [push_ev, watch_ev] = []"
    by (simp add: formattable_def text_date_def push_ev_def watch_ev_def no_filters_def)
  have s1: "snd (display_activity [push_ev, watch_ev] (no_filters\<lparr>date_from := Some y2000\<rparr>)
        (\<lambda>k. feb_2024) 0) = None"
    by (simp only: display_shows_age_iff_date_filter [OF h1] snd_conv d1 list.case)
  have s2: "snd (display_activity [push_ev, watch_ev] no_filters (\<lambda>k. feb_2024) 0) = None"
    by (simp only: display_shows_age_iff_date_filter [OF h1] snd_conv d2 list.case)
  have f1: "fst (display_activity [push_ev, watch_ev] (no_filters\<lparr>date_from := Some y2000\<rparr>)
        (\<lambda>k. feb_2024) 0)
      = [CHR 0x0A # ''Recent Activity (2 events)'', ''Filters: Since: 2000-01-01'',
         ''------------------------------------------------------------'',
         ''- Pushed 3 commit(s) to octo/Repo (16 days ago)'',
         ''- Starred octo/other (just now)'']"
    by code_simp
  have f2: "fst (display_activity [push_ev, watch_ev] no_filters (\<lambda>k. feb_2024) 0)
      = [CHR 0x0A # ''Recent Activity (2 events)'',
         ''------------------------------------------------------------'',
         ''- Pushed 3 commit(s) to octo/Repo'', ''- Starred octo/other'']"
    by code_simp
  show ?thesis
    by (intro conjI h1 prod_eqI) (simp_all only: f1 f2 s1 s2 fst_conv snd_conv)
qed

subsection \<open>The exit status\<close>

lemma step_exc:
  "step clock arg rest r = Inl (r', exc) \<Longrightarrow> exc = SystemExit 1 \<or> exc = OverflowError"
  by (auto simp: step_def split: if_splits list.splits option.splits)

lemma step_append:
  "step clock arg rest r = Inr (rest', r') \<Longrightarrow> step clock arg (rest @ s) r = Inr (rest' @ s, r')"
  by (auto simp: step_def split: if_splits list.splits option.splits)

lemma parse_loop_exc:
  "snd (parse_loop clock args r) = Some exc \<Longrightarrow> exc = SystemExit 1 \<or> exc = OverflowError"
proof (induction clock args r rule: parse_loop.induct)
  case (1 clock r)
  then show ?case by simp
next
  case (2 clock arg rest r)
  show ?case
  proof (cases "step clock arg rest r")
    case (Inl a)
    then obtain r' e where "step clock arg rest r = Inl (r', e)" by (cases a) auto
    with 2(2) step_exc show ?thesis by fastforce
  next
    case (Inr b)
    then obtain rest' r' where s: "step clock arg rest r = Inr (rest', r')" by (cases b) auto
    with 2(2) have "snd (parse_loop clock rest' r') = Some exc" by simp
    with 2(1) [OF s [symmetric, THEN sym] refl] show ?thesis by blast
  qed
qed

lemma parse_loop_append:
  "snd (parse_loop clock pre r) = None \<Longrightarrow>
     parse_loop clock (pre @ s) r = parse_loop clock s (fst (parse_loop clock pre r))"
proof (induction clock pre r rule: parse_loop.induct)
  case (1 clock r)
  then show ?case by simp
next
  case (2 clock arg rest r)
  show ?case
  proof (cases "step clock arg rest r")
    case (Inl a)
    with 2(2) show ?thesis by (cases a) simp
  next
    case (Inr b)
    then obtain rest' r' where st: "step clock arg rest r = Inr (rest', r')" by (cases b) auto
    with 2(2) have n: "snd (parse_loop clock rest' r') = None" by simp
    have "parse_loop clock (rest' @ s) r' = parse_loop clock s (fst (parse_loop clock rest' r'))"
      using 2(1) [OF st [symmetric, THEN sym] refl n] .
    then show ?thesis
      using st step_append [OF st, of s] by simp
  qed
qed

lemma step_missing_value:
  "flag \<in> set value_flags \<Longrightarrow> \<exists>r'. step clock flag [] r = Inl (r', SystemExit 1)"
  by (auto simp: value_flags_def step_def)

lemma step_bad_limit:
  "flag = ''--limit'' \<or> flag = ''-l'' \<Longrightarrow> py_int v = None \<Longrightarrow>
     \<exists>r'. step clock flag (v # rest) r = Inl (r', SystemExit 1)"
  by (auto simp: step_def)

lemma step_bad_date:
  "flag = ''--date'' \<or> flag = ''-d'' \<Longrightarrow> strptime_date v = None \<Longrightarrow>
     \<exists>r'. step clock flag (v # rest) r = Inl (r', SystemExit 1)"
  by (auto simp: step_def)

lemma parse_loop_stops:
  "snd (parse_loop clock pre start) = None \<Longrightarrow> step clock flag rest (parsed clock pre) = Inl (r', exc) \<Longrightarrow>
     snd (parse_loop clock (pre @ flag # rest) start) = Some exc"
  by (simp add: parse_loop_append parsed_def)

text \<open>The exit status of \<^verbatim>\<open>main\<close>, stage by stage.\<close>

lemma exit_status_exc: "exc = SystemExit 1 \<or> exc = OverflowError \<Longrightarrow> exit_status (Some exc) = 1"
  by auto

lemma main_no_args: "snd (main [] clock net) = 1"
  by (simp add: main_def parse_arguments_def)

lemma main_parse_fails:
  "snd (parse_loop clock rest start) = Some exc \<Longrightarrow> snd (main (u # rest) clock net) = 1"
proof -
  assume a: "snd (parse_loop clock rest start) = Some exc"
  then obtain r where "parse_loop clock rest start = (r, Some exc)"
    by (cases "parse_loop clock rest start") auto
  then show ?thesis
    using exit_status_exc [OF parse_loop_exc [OF a]]
    by (simp add: main_def parse_arguments_def)
qed

lemma exit_status_dropWhile:
  "exit_status (case dropWhile P F of
                  [] \<Rightarrow> None
                | e # es \<Rightarrow> Some (if c e then AttributeError else TypeError))
     = (if list_all P F then 0 else 1)"
proof (cases "dropWhile P F")
  case Nil
  then have "list_all P F"
    by (simp add: dropWhile_eq_Nil_conv list_all_iff)
  with Nil show ?thesis by (simp del: dropWhile_eq_Nil_conv)
next
  case (Cons y ys)
  then have "\<not> P y"
    using hd_dropWhile [of P F] by auto
  moreover have "y \<in> set F"
    using Cons set_dropWhileD [of y P F] by simp
  ultimately have "\<not> list_all P F"
    by (auto simp: list_all_iff)
  with Cons show ?thesis by simp
qed

lemma display_exit:
  "exit_status (snd (display_activity F f clock t))
     = (if list_all (formattable (date_from f \<noteq> None)) F then 0 else 1)"
proof (cases "F = []")
  case True
  then show ?thesis by (simp add: display_activity_def)
next
  case False
  show ?thesis
  proof (cases "date_from f \<noteq> None")
    case True
    with False have "snd (display_activity F f clock t) = snd (print_events F True clock t)"
      by (simp add: display_activity_def split: prod.splits)
    then show ?thesis
      using True exit_status_dropWhile
        [where P = "formattable True" and F = F and c = "\<lambda>e. ev_type e = None"]
      by (simp add: print_events_dates)
  next
    case nd: False
    with False have "snd (display_activity F f clock t) = snd (print_events F False clock t)"
      by (simp add: display_activity_def split: prod.splits)
    then show ?thesis
      using nd exit_status_dropWhile
        [where P = "formattable False" and F = F and c = "\<lambda>e. ev_type e = None"]
      by (simp add: print_events_no_dates)
  qed
qed

lemma main_parsed:
  "parses clock rest \<Longrightarrow>
     snd (main (u # rest) clock net)
       = (case net u of
            Events es \<Rightarrow>
              (case filter_events es (r_filters (parsed clock rest)) of
                 Inl exc \<Rightarrow> 1
               | Inr F \<Rightarrow>
                   if list_all (formattable (date_from (r_filters (parsed clock rest)) \<noteq> None)) F
                   then 0 else 1)
          | _ \<Rightarrow> 1)"
proof -
  assume "parses clock rest"
  then obtain r where p: "parse_loop clock rest start = (r, None)"
    by (cases "parse_loop clock rest start") (auto simp: parses_def)
  then have r: "parsed clock rest = r" by (simp add: parsed_def)
  show ?thesis
  proof (cases "net u")
    case (Events es)
    show ?thesis
    proof (cases "filter_events es (r_filters r)")
      case (Inl exc)
      then have "exc = TypeError"
        by (auto simp: filter_events_split dest: value_filters_Inl split: sum.splits)
      with Inl Events p r show ?thesis
        by (simp add: main_def parse_arguments_def fetch_user_activity_def say_def)
    next
      case (Inr F)
      with Events p r show ?thesis
        using display_exit [of F "r_filters r" clock "r_ticks r"]
        by (auto simp: main_def parse_arguments_def fetch_user_activity_def say_def
            split: prod.splits)
    qed
  qed (use p r in \<open>simp_all add: main_def parse_arguments_def fetch_user_activity_def\<close>)
qed

lemma main_succeeds_iff: "snd (main args clock net) = (if run_succeeds args clock net then 0 else 1)"
proof (cases args)
  case Nil
  then show ?thesis by (simp add: main_no_args run_succeeds_def)
next
  case (Cons u rest)
  show ?thesis
  proof (cases "parses clock rest")
    case True
    show ?thesis
      unfolding Cons main_parsed [OF True] run_succeeds_def
      using True by (auto split: response.splits sum.splits)
  next
    case False
    then obtain exc where "snd (parse_loop clock rest start) = Some exc"
      by (auto simp: parses_def)
    then have "snd (main (u # rest) clock net) = 1"
      by (rule main_parse_fails)
    with False Cons show ?thesis
      by (simp add: run_succeeds_def)
  qed
qed

text \<open>
  C9. The exit status is 0 exactly when the run succeeds, and 1 otherwise; the set of
  events left by the filter may be empty. It is 1 when there is no argument, when the
  request fails (any response that is no list of events), when a flag that takes a
  value is the last argument, and when the value of \<^verbatim>\<open>--limit\<close> or \<^verbatim>\<open>--date\<close>
  does not parse, wherever the loop reads that flag (after arguments \<open>pre\<close> that it
  reads to the end).
\<close>

theorem exit_status_of_run:
  "snd (main args clock net) = (if run_succeeds args clock net then 0 else 1)
   \<and> snd (main [] clock net) = 1
   \<and> ((\<forall>es. net u \<noteq> Events es) \<longrightarrow> snd (main (u # rest) clock net) = 1)
   \<and> (parses clock pre \<and> flag \<in> set value_flags
        \<longrightarrow> snd (main (u # pre @ [flag]) clock net) = 1)
   \<and> (parses clock pre \<and> (flag = ''--limit'' \<or> flag = ''-l'') \<and> py_int v = None
        \<longrightarrow> snd (main (u # pre @ flag # v # rest) clock net) = 1)
   \<and> (parses clock pre \<and> (flag = ''--date'' \<or> flag = ''-d'') \<and> strptime_date v = None
        \<longrightarrow> snd (main (u # pre @ flag # v # rest) clock net) = 1)
   \<and> (parses clock rest \<and> net u = Events es
        \<and> filter_events es (r_filters (parsed clock rest)) = Inr []
        \<longrightarrow> snd (main (u # rest) clock net) = 0)"
proof (intro conjI impI)
  show "snd (main args clock net) = (if run_succeeds args clock net then 0 else 1)"
    by (rule main_succeeds_iff)
  show "snd (main [] clock net) = 1"
    by (rule main_no_args)
  show "snd (main (u # rest) clock net) = 1" if "\<forall>es. net u \<noteq> Events es"
  proof -
    have "\<not> run_succeeds (u # rest) clock net"
      using that by (simp add: run_succeeds_def)
    then show ?thesis by (simp add: main_succeeds_iff)
  qed
  show "snd (main (u # pre @ [flag]) clock net) = 1"
    if "parses clock pre \<and> flag \<in> set value_flags"
  proof -
    from that obtain r' where "step clock flag [] (parsed clock pre) = Inl (r', SystemExit 1)"
      using step_missing_value by blast
    with that have "snd (parse_loop clock (pre @ [flag]) start) = Some (SystemExit 1)"
      by (intro parse_loop_stops) (simp_all add: parses_def)
    then show ?thesis by (rule main_parse_fails)
  qed
  show "snd (main (u # pre @ flag # v # rest) clock net) = 1"
    if "parses clock pre \<and> (flag = ''--limit'' \<or> flag = ''-l'') \<and> py_int v = None"
  proof -
    from that obtain r'
      where "step clock flag (v # rest) (parsed clock pre) = Inl (r', SystemExit 1)"
      using step_bad_limit by blast
    with that have "snd (parse_loop clock (pre @ flag # v # rest) start) = Some (SystemExit 1)"
      by (intro parse_loop_stops) (simp_all add: parses_def)
    then show ?thesis by (rule main_parse_fails)
  qed
  show "snd (main (u # pre @ flag # v # rest) clock net) = 1"
    if "parses clock pre \<and> (flag = ''--date'' \<or> flag = ''-d'') \<and> strptime_date v = None"
  proof -
    from that obtain r'
      where "step clock flag (v # rest) (parsed clock pre) = Inl (r', SystemExit 1)"
      using step_bad_date by blast
    with that have "snd (parse_loop clock (pre @ flag # v # rest) start) = Some (SystemExit 1)"
      by (intro parse_loop_stops) (simp_all add: parses_def)
    then show ?thesis by (rule main_parse_fails)
  qed
  show "snd (main (u # rest) clock net) = 0"
    if "parses clock rest \<and> net u = Events es
        \<and> filter_events es (r_filters (parsed clock rest)) = Inr []"
    using that by (simp add: main_parsed)
qed

theorem exit_status_of_run_witness:
  "(\<forall>es. (\<lambda>u. HTTPError 404 ''Not Found'') ''octo'' \<noteq> Events es)
   \<and> snd (main [''octo''] (\<lambda>k. feb_2024) (\<lambda>u. HTTPError 404 ''Not Found'')) = 1
   \<and> parses (\<lambda>k. feb_2024) [''--week''] \<and> ''--limit'' \<in> set value_flags
   \<and> snd (main [''octo'', ''--week'', ''--limit''] (\<lambda>k. feb_2024)
            (\<lambda>u. Events [push_ev, watch_ev])) = 1
   \<and> parses (\<lambda>k. feb_2024) [] \<and> py_int ''five'' = None
   \<and> snd (main [''octo'', ''--limit'', ''five''] (\<lambda>k. feb_2024)
            (\<lambda>u. Events [push_ev, watch_ev])) = 1
   \<and> strptime_date ''2024-13-01'' = None
   \<and> snd (main [''octo'', ''--date'', ''2024-13-01''] (\<lambda>k. feb_2024)
            (\<lambda>u. Events [push_ev, watch_ev])) = 1
   \<and> parses (\<lambda>k. feb_2024) [''--type'', ''fork'']
   \<and> filter_events [push_ev, watch_ev]
        (r_filters (parsed (\<lambda>k. feb_2024) [''--type'', ''fork''])) = Inr []
   \<and> snd (main [''octo'', ''--type'', ''fork''] (\<lambda>k. feb_2024)
            (\<lambda>u. Events [push_ev, watch_ev])) = 0
   \<and> run_succeeds [''octo'', ''--type'', ''fork''] (\<lambda>k. feb_2024)
        (\<lambda>u. Events [push_ev, watch_ev])"
proof -
  let ?clk = "\<lambda>k::nat. feb_2024"
  let ?net = "\<lambda>u::string. Events [push_ev, watch_ev]"
  let ?bad = "\<lambda>u::string. HTTPError 404 ''Not Found''"
  have h3: "\<forall>es. ?bad ''octo'' \<noteq> Events es" by simp
  have p4: "parses ?clk [''--week'']" by code_simp
  have f4: "''--limit'' \<in> set value_flags" by (simp add: value_flags_def)
  have p5: "parses ?clk []" by (simp add: parses_def)
  have i5: "py_int ''five'' = None" by code_simp
  have d6: "strptime_date ''2024-13-01'' = None" by code_simp
  have p7: "parses ?clk [''--type'', ''fork'']" by code_simp
  have e7: "filter_events [push_ev, watch_ev] (r_filters (parsed ?clk [''--type'', ''fork'']))
      = Inr []"
    by code_simp
  note c3 = exit_status_of_run [where net = ?bad and u = "''octo''" and rest = "[]"
      and clock = ?clk, THEN conjunct2, THEN conjunct2, THEN conjunct1, THEN mp, OF h3]
  note c4 = exit_status_of_run [where net = ?net and u = "''octo''" and pre = "[''--week'']"
      and flag = "''--limit''" and clock = ?clk,
      THEN conjunct2, THEN conjunct2, THEN conjunct2, THEN conjunct1, THEN mp,
      OF conjI [OF p4 f4]]
  note c5 = exit_status_of_run [where net = ?net and u = "''octo''" and pre = "[]"
      and flag = "''--limit''" and v = "''five''" and rest = "[]" and clock = ?clk,
      THEN conjunct2, THEN conjunct2, THEN conjunct2, THEN conjunct2, THEN conjunct1,
      THEN mp, OF conjI [OF p5 conjI [OF disjI1 [OF refl] i5]]]
  note c6 = exit_status_of_run [where net = ?net and u = "''octo''" and pre = "[]"
      and flag = "''--date''" and v = "''2024-13-01''" and rest = "[]" and clock = ?clk,
      THEN conjunct2, THEN conjunct2, THEN conjunct2, THEN conjunct2, THEN conjunct2,
      THEN conjunct1, THEN mp, OF conjI [OF p5 conjI [OF disjI1 [OF refl] d6]]]
  note c7 = exit_status_of_run [where net = ?net and u = "''octo''"
      and rest = "[''--type'', ''fork'']" and es = "[push_ev, watch_ev]" and clock = ?clk,
      THEN conjunct2, THEN conjunct2, THEN conjunct2, THEN conjunct2, THEN conjunct2,
      THEN conjunct2, THEN mp, OF conjI [OF p7 conjI [OF refl e7]]]
  note c1 = exit_status_of_run [where net = ?net and clock = ?clk
      and args = "[''octo'', ''--type'', ''fork'']", THEN conjunct1]
  have r: "run_succeeds [''octo'', ''--type'', ''fork''] ?clk ?net"
    using c1 c7 by (simp split: if_splits)
  show ?thesis
    using c4 c5 c6
    by (intro conjI h3 c3 p4 f4 p5 i5 d6 p7 e7 c7 r) simp_all
qed

subsection \<open>The relative age\<close>

lemma pow2_powi: "pow2 e = (2::rat) powi e"
  by (simp add: pow2_def power_int_def inverse_eq_divide power_one_over)

lemma pow2_pos: "0 < pow2 e"
  by (simp add: pow2_powi)

lemma pow2_add: "pow2 (a + b) = pow2 a * pow2 b"
  by (simp add: pow2_powi power_int_add)

lemma pow2_nat: "0 \<le> e \<Longrightarrow> pow2 e = of_int (2 ^ nat e)"
  by (simp add: pow2_def)

lemma pow2_mono: "a \<le> b \<Longrightarrow> pow2 a \<le> pow2 b"
  by (simp add: pow2_powi power_int_increasing)

lemma log2_bounds: "1 \<le> n \<Longrightarrow> 0 \<le> log2 n \<and> 2 ^ nat (log2 n) \<le> n \<and> n < 2 * 2 ^ nat (log2 n)"
proof (induction n rule: log2.induct)
  case (1 n)
  show ?case
  proof (cases "n < 2")
    case True
    with 1(2) have "n = 1" by simp
    then show ?thesis by (simp add: log2.simps)
  next
    case False
    then have h: "1 \<le> n div 2" by simp
    from 1(1) [OF False h] have ih: "0 \<le> log2 (n div 2)"
      "2 ^ nat (log2 (n div 2)) \<le> n div 2" "n div 2 < 2 * 2 ^ nat (log2 (n div 2))"
      by simp_all
    have l: "log2 n = 1 + log2 (n div 2)"
      using False by (subst log2.simps) simp
    have p: "(2::int) ^ nat (log2 n) = 2 * 2 ^ nat (log2 (n div 2))"
      using ih(1) by (simp add: l nat_add_distrib)
    define P where "P = (2::int) ^ nat (log2 (n div 2))"
    have a: "P \<le> n div 2" "n div 2 < 2 * P"
      using ih by (simp_all add: P_def)
    have "2 * P \<le> n \<and> n < 2 * (2 * P)"
      using a by presburger
    then show ?thesis
      using ih(1) l p by (simp add: P_def)
  qed
qed

lemma round_even_bounds: "of_int (round_even q) \<le> q + 1 / 2 \<and> q - 1 / 2 \<le> of_int (round_even q)"
  by (auto simp: round_even_def Let_def; linarith)

lemma round_even_ge_int: "of_int j \<le> q \<Longrightarrow> j \<le> round_even q"
proof -
  assume "of_int j \<le> q"
  then have "j \<le> \<lfloor>q\<rfloor>" by (simp add: le_floor_iff)
  then show ?thesis by (auto simp: round_even_def Let_def)
qed

lemma round_even_le_int: "q \<le> of_int j \<Longrightarrow> round_even q \<le> j"
proof -
  assume a: "q \<le> of_int j"
  show ?thesis
  proof (cases "q = of_int j")
    case True
    then show ?thesis by (simp add: round_even_def)
  next
    case False
    with a have "q < of_int j" by simp
    then have "\<lfloor>q\<rfloor> < j" by (simp add: floor_less_iff)
    then show ?thesis by (auto simp: round_even_def Let_def)
  qed
qed

lemma ilog2_ge1:
  assumes "1 \<le> a"
  shows "0 \<le> ilog2 a \<and> pow2 (ilog2 a) \<le> a \<and> a < 2 * pow2 (ilog2 a)"
proof -
  have f: "1 \<le> \<lfloor>a\<rfloor>" using assms by (simp add: le_floor_iff)
  note b = log2_bounds [OF f]
  have i: "ilog2 a = log2 \<lfloor>a\<rfloor>" using assms by (simp add: ilog2_def)
  have p: "pow2 (ilog2 a) = of_int (2 ^ nat (log2 \<lfloor>a\<rfloor>))"
    using b by (simp only: i pow2_nat)
  have "(of_int (2 ^ nat (log2 \<lfloor>a\<rfloor>)) :: rat) \<le> of_int \<lfloor>a\<rfloor>"
    using b by (simp only: of_int_le_iff)
  also have "\<dots> \<le> a" by simp
  finally have lo: "pow2 (ilog2 a) \<le> a" by (simp only: p)
  have "\<lfloor>a\<rfloor> + 1 \<le> 2 * 2 ^ nat (log2 \<lfloor>a\<rfloor>)" using b by simp
  then have "(of_int (\<lfloor>a\<rfloor> + 1) :: rat) \<le> of_int (2 * 2 ^ nat (log2 \<lfloor>a\<rfloor>))"
    by (simp only: of_int_le_iff)
  moreover have "a < of_int (\<lfloor>a\<rfloor> + 1)" by linarith
  ultimately have "a < of_int (2 * 2 ^ nat (log2 \<lfloor>a\<rfloor>))" by (rule less_le_trans [rotated])
  then have hi: "a < 2 * pow2 (ilog2 a)" by (simp only: p of_int_mult of_int_numeral)
  show ?thesis using b lo hi by (simp add: i)
qed

lemma ilog2_le_52:
  assumes "0 < a" "a < 9007199254740992"
  shows "ilog2 a \<le> 52"
proof (cases "1 \<le> a")
  case True
  note b = ilog2_ge1 [OF True]
  show ?thesis
  proof (rule ccontr)
    assume "\<not> ilog2 a \<le> 52"
    then have "53 \<le> ilog2 a" by simp
    then have "pow2 53 \<le> pow2 (ilog2 a)" by (rule pow2_mono)
    moreover have "pow2 53 = 9007199254740992" by (simp add: pow2_def)
    ultimately show False using b assms by simp
  qed
next
  case False
  have "1 \<le> n \<Longrightarrow> 0 \<le> log2 n" for n using log2_bounds by simp
  then have "ilog2 a \<le> 0"
    using False by (auto simp: ilog2_def Let_def)
  then show ?thesis by simp
qed

lemma fl_pos:
  "0 < x \<Longrightarrow> fl x = of_int (round_even (x / pow2 (ilog2 x - 52))) * pow2 (ilog2 x - 52)"
  by (simp add: fl_def Let_def)

lemma fl_nonneg: "0 \<le> x \<Longrightarrow> 0 \<le> fl x"
proof (cases "x = 0")
  case True
  then show ?thesis by (simp add: fl_def)
next
  case False
  assume "0 \<le> x"
  with False have x: "0 < x" by simp
  have "of_int 0 \<le> x / pow2 (ilog2 x - 52)"
    using x pow2_pos [of "ilog2 x - 52"] by simp
  then have "0 \<le> round_even (x / pow2 (ilog2 x - 52))" by (rule round_even_ge_int)
  then show ?thesis
    using pow2_pos [of "ilog2 x - 52"] by (simp add: fl_pos [OF x])
qed

lemma fl_upper:
  assumes "1 \<le> x"
  shows "fl x \<le> x + x / 9007199254740992"
proof -
  define e where "e = ilog2 x - 52"
  have x: "0 < x" using assms by simp
  note b = ilog2_ge1 [OF assms]
  have pe: "0 < pow2 e" by (rule pow2_pos)
  have "pow2 (ilog2 x) = pow2 (e + 52)" by (simp add: e_def)
  also have "\<dots> = pow2 e * pow2 52" by (rule pow2_add)
  also have "pow2 52 = 4503599627370496" by (simp add: pow2_def)
  finally have "pow2 e * 4503599627370496 \<le> x" using b by simp
  then have small: "pow2 e / 2 \<le> x / 9007199254740992" by simp
  have "of_int (round_even (x / pow2 e)) \<le> x / pow2 e + 1 / 2"
    using round_even_bounds by blast
  then have "of_int (round_even (x / pow2 e)) * pow2 e \<le> (x / pow2 e + 1 / 2) * pow2 e"
    using pe by (simp only: mult_le_cancel_right_pos)
  also have "\<dots> = x + pow2 e / 2"
    using pe by (simp add: field_simps)
  finally have "fl x \<le> x + pow2 e / 2"
    by (simp only: fl_pos [OF x] e_def)
  with small show ?thesis by simp
qed

lemma scaled_int:
  assumes "e \<le> 0"
  shows "of_int n / pow2 e = of_int (n * 2 ^ nat (- e))"
proof -
  have "pow2 e * pow2 (- e) = 1"
    using pow2_add [of e "- e"] by (simp add: pow2_def)
  moreover have "pow2 (- e) = of_int (2 ^ nat (- e))"
    using assms by (simp only: pow2_nat)
  ultimately have "pow2 e * of_int (2 ^ nat (- e)) = 1" by simp
  then have inv: "1 / pow2 e = (of_int (2 ^ nat (- e)) :: rat)"
    using pow2_pos [of e] by (simp add: field_simps)
  have "of_int n / pow2 e = of_int n * (1 / pow2 e)" by simp
  also have "\<dots> = of_int n * (of_int (2 ^ nat (- e)) :: rat)"
    by (simp only: inv)
  finally show ?thesis by (simp only: of_int_mult)
qed

lemma fl_ge_int:
  assumes "of_int n \<le> x" "0 < x" "x < 9007199254740992"
  shows "of_int n \<le> fl x"
proof -
  define e where "e = ilog2 x - 52"
  have e: "e \<le> 0" using ilog2_le_52 [OF assms(2,3)] by (simp add: e_def)
  have pe: "0 < pow2 e" by (rule pow2_pos)
  have "of_int n / pow2 e \<le> x / pow2 e"
    using assms(1) pe by (simp only: divide_le_cancel) simp
  then have "of_int (n * 2 ^ nat (- e)) \<le> x / pow2 e"
    by (simp only: scaled_int [OF e])
  then have "n * 2 ^ nat (- e) \<le> round_even (x / pow2 e)"
    by (rule round_even_ge_int)
  then have "(of_int (n * 2 ^ nat (- e)) :: rat) \<le> of_int (round_even (x / pow2 e))"
    by (simp only: of_int_le_iff)
  then have "of_int n / pow2 e \<le> of_int (round_even (x / pow2 e))"
    by (simp only: scaled_int [OF e])
  then have "of_int n \<le> of_int (round_even (x / pow2 e)) * pow2 e"
    using pe by (simp only: pos_divide_le_eq)
  then show ?thesis by (simp only: fl_pos [OF assms(2)] e_def)
qed

lemma fl_le_int:
  assumes "x \<le> of_int n" "0 < x" "x < 9007199254740992"
  shows "fl x \<le> of_int n"
proof -
  define e where "e = ilog2 x - 52"
  have e: "e \<le> 0" using ilog2_le_52 [OF assms(2,3)] by (simp add: e_def)
  have pe: "0 < pow2 e" by (rule pow2_pos)
  have "x / pow2 e \<le> of_int n / pow2 e"
    using assms(1) pe by (simp only: divide_le_cancel) simp
  then have "x / pow2 e \<le> of_int (n * 2 ^ nat (- e))"
    by (simp only: scaled_int [OF e])
  then have "round_even (x / pow2 e) \<le> n * 2 ^ nat (- e)"
    by (rule round_even_le_int)
  then have "(of_int (round_even (x / pow2 e)) :: rat) \<le> of_int (n * 2 ^ nat (- e))"
    by (simp only: of_int_le_iff)
  then have "of_int (round_even (x / pow2 e)) \<le> of_int n / pow2 e"
    by (simp only: scaled_int [OF e])
  then have "of_int (round_even (x / pow2 e)) * pow2 e \<le> of_int n"
    using pe by (simp only: pos_le_divide_eq)
  then show ?thesis by (simp only: fl_pos [OF assms(2)] e_def)
qed

lemma seconds_less_iff:
  assumes "0 \<le> us" "us \<le> 4000000000000000" "2 \<le> T" "T \<le> 2592000"
  shows "total_seconds us < of_int T \<longleftrightarrow> us < T * 1000000"
proof
  define x :: rat where "x = of_int us / 1000000"
  have xB: "x < 9007199254740992"
    using assms(2) by (simp add: x_def)
  {
    assume "total_seconds us < of_int T"
    then have f: "fl x < of_int T" by (simp add: total_seconds_def x_def)
    show "us < T * 1000000"
    proof (rule ccontr)
      assume "\<not> us < T * 1000000"
      then have "T * 1000000 \<le> us" by simp
      then have "(of_int (T * 1000000) :: rat) \<le> of_int us" by (simp only: of_int_le_iff)
      then have Tx: "of_int T \<le> x" by (simp add: x_def)
      then have "0 < x" using assms(3) by (simp add: less_le_trans [rotated])
      from fl_ge_int [OF Tx this xB] f show False by simp
    qed
  }
  {
    assume "us < T * 1000000"
    then have "us + 1 \<le> T * 1000000" by simp
    then have "(of_int (us + 1) :: rat) \<le> of_int (T * 1000000)" by (simp only: of_int_le_iff)
    then have xT: "x \<le> of_int T - 1 / 1000000" by (simp add: x_def)
    have T: "(of_int T :: rat) \<le> 2592000" "(2 :: rat) \<le> of_int T"
      using assms(3,4) by simp_all
    have "fl x < of_int T"
    proof (cases "1 \<le> x")
      case True
      from fl_upper [OF True] xT T show ?thesis by simp
    next
      case False
      show ?thesis
      proof (cases "x = 0")
        case True
        then show ?thesis using T by (simp add: fl_def)
      next
        case nz: False
        have "0 \<le> x" using assms(1) by (simp add: x_def)
        with nz have p: "0 < x" by simp
        have "x \<le> of_int 1" using False by simp
        from fl_le_int [OF this p xB] T show ?thesis by simp
      qed
    qed
    then show "total_seconds us < of_int T" by (simp add: total_seconds_def x_def)
  }
qed

lemma int_div_exact:
  assumes "0 < k" "k * 1000000 \<le> us" "us \<le> 4000000000000000"
  shows "int_div (total_seconds us) k = us div (k * 1000000)"
proof -
  define x :: rat where "x = of_int us / 1000000"
  define M where "M = us div (k * 1000000)"
  define s where "s = fl x"
  define y where "y = s / of_int k"
  define q where "q = fl y"
  have kp: "(0 :: rat) < of_int k" "(1 :: rat) \<le> of_int k" using assms(1) by simp_all
  have K: "0 < k * 1000000" using assms(1) by simp
  have "0 < us div (k * 1000000)"
    using assms(2) by (simp only: pos_imp_zdiv_pos_iff [OF K])
  then have M1: "1 \<le> M" by (simp add: M_def)
  define r where "r = us mod (k * 1000000)"
  have dec: "us = M * (k * 1000000) + r" by (simp only: M_def r_def div_mult_mod_eq)
  have r: "0 \<le> r" "r < k * 1000000"
    using K by (simp_all only: r_def pos_mod_sign pos_mod_bound)
  have lo: "M * (k * 1000000) \<le> us"
    using dec r(1) by linarith
  have hi: "us + 1 \<le> (M + 1) * (k * 1000000)"
    using dec r(2) by (simp add: distrib_right)
  have "(of_int (M * (k * 1000000)) :: rat) \<le> of_int us" using lo by (simp only: of_int_le_iff)
  then have xlo: "of_int M * of_int k \<le> x" by (simp add: x_def field_simps)
  have "(of_int (us + 1) :: rat) \<le> of_int ((M + 1) * (k * 1000000))"
    using hi by (simp only: of_int_le_iff)
  then have xhi: "x \<le> (of_int M + 1) * of_int k - 1 / 1000000" by (simp add: x_def field_simps)
  have xB: "x \<le> 4000000000" using assms(3) by (simp add: x_def)
  have "(of_int k :: rat) \<le> of_int M * of_int k"
    using M1 kp by simp
  then have kx: "of_int k \<le> x" using xlo by simp
  then have x1: "1 \<le> x" "0 < x" using kp by simp_all
  have slo: "of_int (M * k) \<le> s"
    unfolding s_def using xlo x1 xB by (intro fl_ge_int) simp_all
  have shi: "s \<le> x + x / 9007199254740992"
    unfolding s_def by (rule fl_upper [OF x1(1)])
  have ylo: "of_int M \<le> y"
    using slo kp by (simp add: y_def pos_le_divide_eq)
  have y1: "1 \<le> y" "0 < y" using ylo M1 by simp_all
  have "y \<le> s" using kp y1 by (simp add: y_def pos_divide_le_eq mult_le_cancel_left1 zero_less_mult_iff)
  then have yB: "y < 9007199254740992" using shi xB by simp
  have qlo: "of_int M \<le> q"
    unfolding q_def using ylo y1 yB by (intro fl_ge_int) simp_all
  have qhi: "q \<le> y + y / 9007199254740992"
    unfolding q_def by (rule fl_upper [OF y1(1)])
  have "q * of_int k \<le> (y + y / 9007199254740992) * of_int k"
    using qhi kp by (simp only: mult_le_cancel_right_pos)
  also have "\<dots> = s + s / 9007199254740992"
    using kp by (simp add: y_def field_simps)
  finally have "q * of_int k \<le> s + s / 9007199254740992" .
  then have "q * of_int k < (of_int M + 1) * of_int k"
    using shi xhi xB by simp
  then have qhi': "q < of_int M + 1"
    using kp by (simp only: mult_less_cancel_right_pos)
  have "0 \<le> q" using qlo M1 by simp
  moreover have "\<lfloor>q\<rfloor> = M"
    using qlo qhi' by (simp add: floor_unique)
  ultimately show ?thesis
    by (simp add: int_div_def total_seconds_def Let_def q_def y_def s_def x_def M_def)
qed

lemma char_of_not_j: "(k :: int) mod 256 \<noteq> 106 \<Longrightarrow> char_of k \<noteq> CHR ''j''"
proof
  assume a: "k mod 256 \<noteq> 106" and "char_of k = CHR ''j''"
  then have "(of_char (char_of k :: char) :: int) = of_char CHR ''j''" by simp
  then show False using a by (simp only: of_char_of) simp
qed

lemma show_pos_head: "0 \<le> n \<Longrightarrow> \<exists>c cs. show_pos n = c # cs \<and> c \<noteq> CHR ''j''"
proof (induction n rule: show_pos.induct)
  case (1 n)
  show ?case
  proof (cases "n < 10")
    case True
    with 1(2) have "(48 + n) mod 256 \<noteq> 106"
      by presburger
    then have "char_of (48 + n) \<noteq> CHR ''j''"
      by (rule char_of_not_j)
    then show ?thesis
      using True by (subst show_pos.simps) simp
  next
    case False
    from 1(2) have "0 \<le> n div 10" by simp
    from 1(1) [OF False this] obtain c cs where "show_pos (n div 10) = c # cs" "c \<noteq> CHR ''j''"
      by blast
    then show ?thesis
      using False by (subst show_pos.simps) simp
  qed
qed

lemma ago_not_just_now: "0 \<le> n \<Longrightarrow> ago n unit \<noteq> ''just now''"
  using show_pos_head [of n] by (auto simp: ago_def show_int_def)

lemma floor_seconds:
  "0 < k \<Longrightarrow> \<lfloor>rat_of_int us / 1000000 / of_int k\<rfloor> = us div (k * 1000000)"
proof -
  have "rat_of_int us / 1000000 / of_int k = of_int us / of_int (k * 1000000)"
    by simp
  then show ?thesis
    by (simp only: floor_divide_of_int_eq)
qed

text \<open>
  C6, as amended. For every pair of timestamps whose difference \<open>now - timestamp\<close> is
  at least 0 and at most 4 000 000 000 seconds (some 126 years), the relative age is
  the one of the specification on the exact difference: \<open>just now\<close> below 60 seconds
  (and only there), then the whole minutes, hours, days and periods of 30 days with
  each boundary in the higher tier, and the plural \<open>s\<close> unless the count is 1.
\<close>

theorem get_time_ago_tiers:
  assumes "0 \<le> dt_micros now - dt_micros date"
    and "dt_micros now - dt_micros date \<le> 4000000000000000"
  shows "get_time_ago date now = relativeAge (of_int (dt_micros now - dt_micros date) / 1000000)
     \<and> (get_time_ago date now = ''just now'' \<longleftrightarrow> dt_micros now - dt_micros date < 60000000)"
proof -
  define us where "us = dt_micros now - dt_micros date"
  have b: "0 \<le> us" "us \<le> 4000000000000000"
    using assms by (simp_all add: us_def)
  have t: "total_seconds us < 60 \<longleftrightarrow> us < 60000000"
    "total_seconds us < 3600 \<longleftrightarrow> us < 3600000000"
    "total_seconds us < 86400 \<longleftrightarrow> us < 86400000000"
    "total_seconds us < 2592000 \<longleftrightarrow> us < 2592000000000"
    using seconds_less_iff [OF b, of 60] seconds_less_iff [OF b, of 3600]
      seconds_less_iff [OF b, of 86400] seconds_less_iff [OF b, of 2592000]
    by simp_all
  have r: "rat_of_int us / 1000000 < 60 \<longleftrightarrow> us < 60000000"
    "rat_of_int us / 1000000 < 3600 \<longleftrightarrow> us < 3600000000"
    "rat_of_int us / 1000000 < 86400 \<longleftrightarrow> us < 86400000000"
    "rat_of_int us / 1000000 < 2592000 \<longleftrightarrow> us < 2592000000000"
    by simp_all
  have f: "\<lfloor>rat_of_int us / 1000000 / 60\<rfloor> = us div 60000000"
    "\<lfloor>rat_of_int us / 1000000 / 3600\<rfloor> = us div 3600000000"
    "\<lfloor>rat_of_int us / 1000000 / 86400\<rfloor> = us div 86400000000"
    "\<lfloor>rat_of_int us / 1000000 / 2592000\<rfloor> = us div 2592000000000"
    using floor_seconds [of 60 us] floor_seconds [of 3600 us] floor_seconds [of 86400 us]
      floor_seconds [of 2592000 us]
    by simp_all
  have d: "60000000 \<le> us \<Longrightarrow> int_div (total_seconds us) 60 = us div 60000000"
    "3600000000 \<le> us \<Longrightarrow> int_div (total_seconds us) 3600 = us div 3600000000"
    "86400000000 \<le> us \<Longrightarrow> int_div (total_seconds us) 86400 = us div 86400000000"
    "2592000000000 \<le> us \<Longrightarrow> int_div (total_seconds us) 2592000 = us div 2592000000000"
    using int_div_exact [of 60 us] int_div_exact [of 3600 us] int_div_exact [of 86400 us]
      int_div_exact [of 2592000 us] b(2)
    by simp_all
  have g: "get_time_ago date now =
     (if us < 60000000 then ''just now''
      else if us < 3600000000 then ago (us div 60000000) ''minute''
      else if us < 86400000000 then ago (us div 3600000000) ''hour''
      else if us < 2592000000000 then ago (us div 86400000000) ''day''
      else ago (us div 2592000000000) ''month'')"
    using d by (simp add: get_time_ago_def Let_def us_def [symmetric] t)
  have s: "relativeAge (of_int us / 1000000) =
     (if us < 60000000 then ''just now''
      else if us < 3600000000 then ago (us div 60000000) ''minute''
      else if us < 86400000000 then ago (us div 3600000000) ''hour''
      else if us < 2592000000000 then ago (us div 86400000000) ''day''
      else ago (us div 2592000000000) ''month'')"
    by (simp only: relativeAge_def r f)
  have n: "0 \<le> us div k" if "0 < k" for k
    using b(1) that by (simp add: pos_imp_zdiv_nonneg_iff)
  have j: "get_time_ago date now = ''just now'' \<longleftrightarrow> us < 60000000"
    using ago_not_just_now [OF n] by (simp add: g)
  show ?thesis
    using g s j by (simp only: us_def)
qed

theorem get_time_ago_tiers_witness:
  "0 \<le> dt_micros (y2000\<lparr>minute := 1\<rparr>) - dt_micros y2000
   \<and> dt_micros (y2000\<lparr>minute := 1\<rparr>) - dt_micros y2000 \<le> 4000000000000000
   \<and> get_time_ago y2000 (y2000\<lparr>minute := 1\<rparr>) = ''1 minute ago''
   \<and> relativeAge (of_int (dt_micros (y2000\<lparr>minute := 1\<rparr>) - dt_micros y2000) / 1000000)
       = ''1 minute ago''
   \<and> get_time_ago y2000 (y2000\<lparr>second := 59\<rparr>) = ''just now''
   \<and> get_time_ago y2000 (y2000\<lparr>hour := 1\<rparr>) = ''1 hour ago''
   \<and> get_time_ago y2000 (y2000\<lparr>day := 2\<rparr>) = ''1 day ago''
   \<and> get_time_ago y2000 (y2000\<lparr>day := 31\<rparr>) = ''1 month ago''
   \<and> get_time_ago y2000 (y2000\<lparr>month := 4\<rparr>) = ''3 months ago''"
proof -
  have h1: "0 \<le> dt_micros (y2000\<lparr>minute := 1\<rparr>) - dt_micros y2000"
    by code_simp
  have h2: "dt_micros (y2000\<lparr>minute := 1\<rparr>) - dt_micros y2000 \<le> 4000000000000000"
    by code_simp
  have c: "relativeAge (of_int (dt_micros (y2000\<lparr>minute := 1\<rparr>) - dt_micros y2000) / 1000000)
       = ''1 minute ago''"
    by code_simp
  have o: "get_time_ago y2000 (y2000\<lparr>second := 59\<rparr>) = ''just now''"
    "get_time_ago y2000 (y2000\<lparr>hour := 1\<rparr>) = ''1 hour ago''"
    "get_time_ago y2000 (y2000\<lparr>day := 2\<rparr>) = ''1 day ago''"
    "get_time_ago y2000 (y2000\<lparr>day := 31\<rparr>) = ''1 month ago''"
    "get_time_ago y2000 (y2000\<lparr>month := 4\<rparr>) = ''3 months ago''"
    by code_simp+
  note t = get_time_ago_tiers [OF h1 h2, THEN conjunct1]
  show ?thesis
    by (intro conjI h1 h2 c o trans [OF t c])
qed

text \<open>
  Further apart the rounding of the seconds to a double shows. From the minimum
  timestamp to the last microsecond of 17 April 1972 the difference is one microsecond
  short of 24000 periods of 30 days; \<^verbatim>\<open>total_seconds()\<close> rounds it up to
  62208000000.0 and the program prints 24000 months, the floor is 23999.
\<close>

theorem get_time_ago_counterexample:
  "0 \<le> dt_micros apr_1972 - dt_micros datetime_min
   \<and> get_time_ago datetime_min apr_1972 = ''24000 months ago''
   \<and> relativeAge (of_int (dt_micros apr_1972 - dt_micros datetime_min) / 1000000)
       = ''23999 months ago''"
  by code_simp

end
